theory Spec2Isabelle
  imports Complex_Main
begin

section \<open>Numbers as the scripts use them\<close>

text \<open>
  Both scripts (\<^verbatim>\<open>scripts/run_cv_kill_bill.py\<close>, the YOLOv8 pass, and
  \<^verbatim>\<open>scripts/run_cv_kill_bill_open_vocab.py\<close>, the OWL-ViT pass) compute with Python
  floats and unbounded Python ints. Ints are \<^typ>\<open>int\<close>. Floats are idealised as
  \<^typ>\<open>real\<close>: the embedding keeps the data flow and the case distinctions of the code
  and leaves out binary rounding error, NaN and the infinities.
\<close>

datatype py_error =
    RuntimeError
  | ZeroDivisionError
  | IndexError
  | ValueError
  | FileExistsError
  | NotADirectoryError
  | IsADirectoryError
  | DetectorError

text \<open>Python's \<^verbatim>\<open>int(x)\<close> on a float: truncation toward zero.\<close>

definition py_int :: "real \<Rightarrow> int" where
  "py_int x = (if 0 \<le> x then \<lfloor>x\<rfloor> else \<lceil>x\<rceil>)"

text \<open>Python's \<^verbatim>\<open>round(x)\<close>: the nearest integer, a tie going to the even one.\<close>

definition py_round :: "real \<Rightarrow> int" where
  "py_round x =
     (let f = \<lfloor>x\<rfloor>; d = x - of_int f
      in if d < 1 / 2 then f
         else if 1 / 2 < d then f + 1
         else if even f then f else f + 1)"

text \<open>Python's \<^verbatim>\<open>round(x, n)\<close> for a non-negative number of digits \<open>n\<close>.\<close>

definition py_round_nd :: "real \<Rightarrow> nat \<Rightarrow> real" where
  "py_round_nd x n = of_int (py_round (x * 10 ^ n)) / 10 ^ n"

section \<open>Sampler\<close>

text \<open>
  \<^verbatim>\<open>video_fps = cap.get(cv2.CAP_PROP_FPS) or 30.0\<close>: the reported rate, or 30.0 when
  the reported rate is falsy, which for a float means zero.
\<close>

definition video_fps_of :: "real \<Rightarrow> real" where
  "video_fps_of reported = (if reported = 0 then 30 else reported)"

text \<open>
  \<^verbatim>\<open>stride = max(1, int(round(video_fps / sample_fps)))\<close>. The division raises
  \<^verbatim>\<open>ZeroDivisionError\<close> when \<^verbatim>\<open>sample_fps\<close> is zero.
\<close>

definition stride :: "real \<Rightarrow> real \<Rightarrow> py_error + int" where
  "stride video_fps sample_fps =
     (if sample_fps = 0 then Inl ZeroDivisionError
      else Inr (max 1 (py_round (video_fps / sample_fps))))"

section \<open>Raw detector output and the normalised records\<close>

text \<open>
  One entry of a frame's \<^verbatim>\<open>boxes\<close> list, as both scripts build it: the keys
  \<^verbatim>\<open>label\<close>, \<^verbatim>\<open>confidence\<close> (a number or \<^verbatim>\<open>None\<close>), \<^verbatim>\<open>bbox_px\<close> and
  \<^verbatim>\<open>bbox_pct\<close>.
\<close>

record detection =
  label :: string
  confidence :: "real option"
  bbox_px :: "int list"
  bbox_pct :: "real list"

text \<open>One entry of the \<^verbatim>\<open>frames\<close> list.\<close>

record frame_record =
  time :: real
  frame_index :: int
  boxes :: "detection list"

text \<open>
  Python indexing \<^verbatim>\<open>xs[i]\<close>: a negative index counts from the end, and an index
  outside the list raises \<^verbatim>\<open>IndexError\<close>.
\<close>

definition py_index :: "'a list \<Rightarrow> int \<Rightarrow> py_error + 'a" where
  "py_index xs i =
     (let j = (if i < 0 then i + int (length xs) else i)
      in if j < 0 \<or> int (length xs) \<le> j then Inl IndexError else Inr (xs ! nat j))"

text \<open>
  \<^verbatim>\<open>x1, y1, x2, y2 = ...tolist()\<close>: unpacking a list into four names raises
  \<^verbatim>\<open>ValueError\<close> unless the list has exactly four elements.
\<close>

definition unpack4 :: "real list \<Rightarrow> py_error + real \<times> real \<times> real \<times> real" where
  "unpack4 xs =
     (if length xs = 4 then Inr (xs ! 0, xs ! 1, xs ! 2, xs ! 3) else Inl ValueError)"

text \<open>
  The clamping lines, the same in both scripts up to the spelling of the constants:
  \<^verbatim>\<open>x1, y1 = max(0, x1), max(0, y1)\<close> and
  \<^verbatim>\<open>x2, y2 = min(w - 1, x2), min(h - 1, y2)\<close>. The width and the height come from
  \<^verbatim>\<open>frame.shape[:2]\<close> and are natural numbers.
\<close>

definition clamp_box ::
  "nat \<Rightarrow> nat \<Rightarrow> real \<times> real \<times> real \<times> real \<Rightarrow> real \<times> real \<times> real \<times> real" where
  "clamp_box w h = (\<lambda>(x1, y1, x2, y2).
     (max 0 x1, max 0 y1, min (of_int (int w - 1)) x2, min (of_int (int h - 1)) y2))"

text \<open>
  The dictionary appended to \<^verbatim>\<open>boxes\<close>, from coordinates that are already clamped.
  The divisions by \<^verbatim>\<open>w\<close> and \<^verbatim>\<open>h\<close> raise \<^verbatim>\<open>ZeroDivisionError\<close> on an empty
  frame.
\<close>

definition make_box ::
  "string \<Rightarrow> real option \<Rightarrow> nat \<Rightarrow> nat \<Rightarrow> real \<times> real \<times> real \<times> real
     \<Rightarrow> py_error + detection" where
  "make_box label_name conf_score w h = (\<lambda>(x1, y1, x2, y2).
     if w = 0 \<or> h = 0 then Inl ZeroDivisionError
     else Inr \<lparr>label = label_name,
               confidence = (case conf_score of None \<Rightarrow> None
                             | Some c \<Rightarrow> Some (py_round_nd c 3)),
               bbox_px = [py_int x1, py_int y1, py_int x2, py_int y2],
               bbox_pct = [py_round_nd (100 * x1 / of_nat w) 2,
                           py_round_nd (100 * y1 / of_nat h) 2,
                           py_round_nd (100 * x2 / of_nat w) 2,
                           py_round_nd (100 * y2 / of_nat h) 2]\<rparr>)"

subsection \<open>The closed-vocabulary backend (YOLOv8)\<close>

text \<open>
  One element \<^verbatim>\<open>b\<close> of \<^verbatim>\<open>r.boxes\<close>: \<^verbatim>\<open>b.xyxy\<close> is a tensor, a list of rows, of
  which the script reads row 0; \<^verbatim>\<open>b.cls\<close> and \<^verbatim>\<open>b.conf\<close> are tensors or
  \<^verbatim>\<open>None\<close>.
\<close>

record yolo_box =
  xyxy :: "real list list"
  cls :: "real list option"
  conf :: "real list option"

text \<open>\<^verbatim>\<open>r.names\<close>: a dictionary from class ids to names, or something else.\<close>

datatype names = NamesDict "int \<Rightarrow> string option" | NamesOther

record yolo_result =
  r_names :: names
  r_boxes :: "yolo_box list option"

text \<open>\<^verbatim>\<open>str(n)\<close> of an integer, in decimal.\<close>

fun str_nat :: "nat \<Rightarrow> string" where
  "str_nat n =
     (if n < 10 then [char_of (48 + n)]
      else str_nat (n div 10) @ [char_of (48 + n mod 10)])"

declare str_nat.simps [simp del]

definition str_int :: "int \<Rightarrow> string" where
  "str_int i = (if i < 0 then CHR ''-'' # str_nat (nat (- i)) else str_nat (nat i))"

definition ALLOWED_CLASSES :: "string set" where
  "ALLOWED_CLASSES = {''person''}"

text \<open>\<^verbatim>\<open>int(b.cls[0].item()) if b.cls is not None else -1\<close>\<close>

definition cls_id_of :: "real list option \<Rightarrow> py_error + int" where
  "cls_id_of c =
     (case c of None \<Rightarrow> Inr (- 1)
      | Some t \<Rightarrow> (case py_index t 0 of Inl e \<Rightarrow> Inl e | Inr v \<Rightarrow> Inr (py_int v)))"

text \<open>\<^verbatim>\<open>float(b.conf[0].item()) if b.conf is not None else None\<close>\<close>

definition conf_score_of :: "real list option \<Rightarrow> py_error + real option" where
  "conf_score_of c =
     (case c of None \<Rightarrow> Inr None
      | Some t \<Rightarrow> (case py_index t 0 of Inl e \<Rightarrow> Inl e | Inr v \<Rightarrow> Inr (Some v)))"

text \<open>
  \<^verbatim>\<open>names.get(cls_id, f"class-{cls_id}") if isinstance(names, dict) else str(cls_id)\<close>
\<close>

definition label_name_of :: "names \<Rightarrow> int \<Rightarrow> string" where
  "label_name_of nm cls_id =
     (case nm of
        NamesDict d \<Rightarrow> (case d cls_id of Some s \<Rightarrow> s | None \<Rightarrow> ''class-'' @ str_int cls_id)
      | NamesOther \<Rightarrow> str_int cls_id)"

text \<open>
  The body of \<^verbatim>\<open>for b in r.boxes\<close>, in the order of the source. The result
  \<open>Inr None\<close> is the \<^verbatim>\<open>continue\<close> of the label filter; \<open>Inl\<close> is an exception, which
  nothing in the script catches. The allow-list is the module constant
  \<^verbatim>\<open>ALLOWED_CLASSES\<close>, passed in.
\<close>

definition yolo_box_step ::
  "string set \<Rightarrow> names \<Rightarrow> nat \<Rightarrow> nat \<Rightarrow> yolo_box \<Rightarrow> py_error + detection option" where
  "yolo_box_step allowed nm w h b =
     (case py_index (xyxy b) 0 of Inl e \<Rightarrow> Inl e | Inr row \<Rightarrow>
      case unpack4 row of Inl e \<Rightarrow> Inl e | Inr raw \<Rightarrow>
      case cls_id_of (cls b) of Inl e \<Rightarrow> Inl e | Inr cls_id \<Rightarrow>
      case conf_score_of (conf b) of Inl e \<Rightarrow> Inl e | Inr conf_score \<Rightarrow>
        (let clamped = clamp_box w h raw;
             label_name = label_name_of nm cls_id
         in if allowed \<noteq> {} \<and> label_name \<notin> allowed then Inr None
            else (case make_box label_name conf_score w h clamped of
                    Inl e \<Rightarrow> Inl e | Inr d \<Rightarrow> Inr (Some d))))"

fun yolo_boxes_loop ::
  "string set \<Rightarrow> names \<Rightarrow> nat \<Rightarrow> nat \<Rightarrow> yolo_box list \<Rightarrow> detection list
     \<Rightarrow> py_error + detection list" where
  "yolo_boxes_loop allowed nm w h [] acc = Inr acc"
| "yolo_boxes_loop allowed nm w h (b # bs) acc =
     (case yolo_box_step allowed nm w h b of
        Inl e \<Rightarrow> Inl e
      | Inr None \<Rightarrow> yolo_boxes_loop allowed nm w h bs acc
      | Inr (Some d) \<Rightarrow> yolo_boxes_loop allowed nm w h bs (acc @ [d]))"

text \<open>
  The \<^verbatim>\<open>boxes\<close> list of one sampled frame:
  \<^verbatim>\<open>if results and len(results) > 0\<close>, then \<^verbatim>\<open>r = results[0]\<close> and, unless
  \<^verbatim>\<open>r.boxes is None\<close>, the loop over \<^verbatim>\<open>r.boxes\<close>.
\<close>

definition yolo_frame_boxes ::
  "string set \<Rightarrow> nat \<Rightarrow> nat \<Rightarrow> yolo_result list \<Rightarrow> py_error + detection list" where
  "yolo_frame_boxes allowed w h results =
     (case results of
        [] \<Rightarrow> Inr []
      | r # _ \<Rightarrow>
          (case r_boxes r of
             None \<Rightarrow> Inr []
           | Some bs \<Rightarrow> yolo_boxes_loop allowed (r_names r) w h bs []))"

subsection \<open>The open-vocabulary backend (OWL-ViT)\<close>

text \<open>
  The post-processed result of one frame: the dictionary with the keys
  \<^verbatim>\<open>boxes\<close>, \<^verbatim>\<open>scores\<close> and \<^verbatim>\<open>labels\<close>, which the script walks with \<^verbatim>\<open>zip\<close>.
\<close>

record owl_results =
  res_boxes :: "real list list"
  res_scores :: "real list"
  res_labels :: "int list"

text \<open>
  The body of the \<^verbatim>\<open>for box, score, label_idx in zip(...)\<close> loop. There is no label
  filter and the score is always a number.
\<close>

definition owl_box_step ::
  "string list \<Rightarrow> nat \<Rightarrow> nat \<Rightarrow> real list \<times> real \<times> int \<Rightarrow> py_error + detection" where
  "owl_box_step prompts w h = (\<lambda>(box, score, label_idx).
     case py_index prompts label_idx of Inl e \<Rightarrow> Inl e | Inr label_str \<Rightarrow>
     case unpack4 box of Inl e \<Rightarrow> Inl e | Inr raw \<Rightarrow>
       make_box label_str (Some score) w h (clamp_box w h raw))"

fun owl_boxes_loop ::
  "string list \<Rightarrow> nat \<Rightarrow> nat \<Rightarrow> (real list \<times> real \<times> int) list \<Rightarrow> detection list
     \<Rightarrow> py_error + detection list" where
  "owl_boxes_loop prompts w h [] acc = Inr acc"
| "owl_boxes_loop prompts w h (t # ts) acc =
     (case owl_box_step prompts w h t of
        Inl e \<Rightarrow> Inl e
      | Inr d \<Rightarrow> owl_boxes_loop prompts w h ts (acc @ [d]))"

definition owl_frame_boxes ::
  "string list \<Rightarrow> nat \<Rightarrow> nat \<Rightarrow> owl_results \<Rightarrow> py_error + detection list" where
  "owl_frame_boxes prompts w h res =
     owl_boxes_loop prompts w h
       (zip (res_boxes res) (zip (res_scores res) (res_labels res))) []"

section \<open>The frame loop\<close>

text \<open>
  A decoded frame: \<^verbatim>\<open>frame.shape[:2]\<close> is the height and the width; the pixel data is
  of no interest to the scripts themselves and stays abstract.
\<close>

record 'px frame =
  shape_h :: nat
  shape_w :: nat
  pixels :: 'px

text \<open>
  The \<^verbatim>\<open>cv2.VideoCapture\<close> object: whether it opened, what it reports for
  \<^verbatim>\<open>CAP_PROP_FPS\<close>, and the frames that successive \<^verbatim>\<open>cap.read()\<close> calls return before
  the first failing read.
\<close>

record 'px capture =
  isOpened :: bool
  prop_fps :: real
  cap_frames :: "'px frame list"

text \<open>
  The \<^verbatim>\<open>while True\<close> loop of both scripts, over the frames still to be read. The
  parameter \<open>boxes_of\<close> stands for the part between the stride test and
  \<^verbatim>\<open>frames.append\<close>: the detector call and the normalisation of what it returns.
  A frame whose index is not a multiple of the stride is skipped before anything is
  computed from it.
\<close>

fun frames_loop ::
  "('f \<Rightarrow> py_error + detection list) \<Rightarrow> int \<Rightarrow> real \<Rightarrow> int \<Rightarrow> 'f list \<Rightarrow> frame_record list
     \<Rightarrow> py_error + frame_record list" where
  "frames_loop boxes_of strd video_fps frame_idx [] acc = Inr acc"
| "frames_loop boxes_of strd video_fps frame_idx (f # fs) acc =
     (if frame_idx mod strd \<noteq> 0
      then frames_loop boxes_of strd video_fps (frame_idx + 1) fs acc
      else (case boxes_of f of
              Inl e \<Rightarrow> Inl e
            | Inr bxs \<Rightarrow>
                frames_loop boxes_of strd video_fps (frame_idx + 1) fs
                  (acc @ [\<lparr>time = py_round_nd (of_int frame_idx / video_fps) 3,
                           frame_index = frame_idx,
                           boxes = bxs\<rparr>])))"

text \<open>
  The detectors are external. A call either raises or returns its raw result:
  \<^verbatim>\<open>model.predict(source=frame, imgsz=imgsz, conf=conf, verbose=False)\<close> for YOLOv8, and
  the processor, the model and \<^verbatim>\<open>post_process_object_detection\<close> for OWL-ViT.
\<close>

type_synonym 'px yolo_predict = "'px frame \<Rightarrow> int \<Rightarrow> real \<Rightarrow> py_error + yolo_result list"

type_synonym 'px owl_detect = "string list \<Rightarrow> 'px frame \<Rightarrow> real \<Rightarrow> py_error + owl_results"

definition yolo_boxes_of ::
  "'px yolo_predict \<Rightarrow> int \<Rightarrow> real \<Rightarrow> 'px frame \<Rightarrow> py_error + detection list" where
  "yolo_boxes_of predict imgsz conf_thr fr =
     (case predict fr imgsz conf_thr of
        Inl e \<Rightarrow> Inl e
      | Inr results \<Rightarrow> yolo_frame_boxes ALLOWED_CLASSES (shape_w fr) (shape_h fr) results)"

definition owl_boxes_of ::
  "'px owl_detect \<Rightarrow> string list \<Rightarrow> real \<Rightarrow> 'px frame \<Rightarrow> py_error + detection list" where
  "owl_boxes_of detect prompts score_threshold fr =
     (case detect prompts fr score_threshold of
        Inl e \<Rightarrow> Inl e
      | Inr res \<Rightarrow> owl_frame_boxes prompts (shape_w fr) (shape_h fr) res)"

section \<open>The artifact\<close>

datatype detector_params =
    YoloParams (conf_param: real) (imgsz_param: int)
  | OwlParams (score_threshold_param: real) (prompts_param: "string list")

text \<open>
  The dictionary given to \<^verbatim>\<open>json.dump\<close>. The backend-specific keys
  (\<^verbatim>\<open>conf\<close> and \<^verbatim>\<open>imgsz\<close>, or \<^verbatim>\<open>score_threshold\<close> and \<^verbatim>\<open>prompts\<close>) are the
  \<open>params\<close> field.
\<close>

record run_artifact =
  source :: string
  sample_fps :: real
  video_fps :: real
  model :: string
  params :: detector_params
  frames :: "frame_record list"

definition VIDEO_REL :: string where
  "VIDEO_REL = ''public/Kill_Bill_Vol1_Part2_30FPS_1428s-1432s.mp4''"

text \<open>
  \<^verbatim>\<open>run_detection\<close> of \<^verbatim>\<open>run_cv_kill_bill.py\<close> up to \<^verbatim>\<open>cap.release()\<close>: everything
  that decides the dictionary to be written.
\<close>

definition assemble_yolo ::
  "'px capture \<Rightarrow> 'px yolo_predict \<Rightarrow> real \<Rightarrow> real \<Rightarrow> int \<Rightarrow> py_error + run_artifact" where
  "assemble_yolo cap predict sample_rate conf_thr imgsz =
     (if \<not> isOpened cap then Inl RuntimeError
      else let fps = video_fps_of (prop_fps cap) in
        (case stride fps sample_rate of
           Inl e \<Rightarrow> Inl e
         | Inr strd \<Rightarrow>
             (case frames_loop (yolo_boxes_of predict imgsz conf_thr) strd fps 0
                     (cap_frames cap) [] of
                Inl e \<Rightarrow> Inl e
              | Inr frs \<Rightarrow>
                  Inr \<lparr>source = VIDEO_REL, sample_fps = sample_rate, video_fps = fps,
                       model = ''yolov8n.pt'', params = YoloParams conf_thr imgsz,
                       frames = frs\<rparr>)))"

text \<open>\<^verbatim>\<open>prompts = prompts or [...]\<close>: the default list replaces \<^verbatim>\<open>None\<close> and \<^verbatim>\<open>[]\<close>.\<close>

definition prompts_or_default :: "string list option \<Rightarrow> string list" where
  "prompts_or_default p =
     (case p of
        None \<Rightarrow> [''katana'', ''sword'', ''blade'', ''yellow jumpsuit'', ''yellow suit'',
                 ''yellow outfit'']
      | Some ps \<Rightarrow>
          if ps = [] then [''katana'', ''sword'', ''blade'', ''yellow jumpsuit'',
                           ''yellow suit'', ''yellow outfit'']
          else ps)"

text \<open>The same part of \<^verbatim>\<open>run_cv_kill_bill_open_vocab.py\<close>.\<close>

definition assemble_owl ::
  "'px capture \<Rightarrow> 'px owl_detect \<Rightarrow> real \<Rightarrow> real \<Rightarrow> string \<Rightarrow> string list option
     \<Rightarrow> py_error + run_artifact" where
  "assemble_owl cap detect sample_rate score_threshold model_id prompts_arg =
     (let prompts = prompts_or_default prompts_arg in
      if \<not> isOpened cap then Inl RuntimeError
      else let fps = video_fps_of (prop_fps cap) in
        (case stride fps sample_rate of
           Inl e \<Rightarrow> Inl e
         | Inr strd \<Rightarrow>
             (case frames_loop (owl_boxes_of detect prompts score_threshold) strd fps 0
                     (cap_frames cap) [] of
                Inl e \<Rightarrow> Inl e
              | Inr frs \<Rightarrow>
                  Inr \<lparr>source = VIDEO_REL, sample_fps = sample_rate, video_fps = fps,
                       model = model_id, params = OwlParams score_threshold prompts,
                       frames = frs\<rparr>)))"

section \<open>Writing the artifact\<close>

text \<open>
  A path is the list of its components below the file-system root. What a reader finds
  at the path of a regular file is either a complete JSON document, named by the
  dictionary it serialises, or a file that has been opened for writing (and thereby
  truncated) whose document is not complete yet. \<^verbatim>\<open>json.dump\<close> writes the document
  piece by piece through a buffered file object; every state of the file between the
  opening and the close is \<open>Incomplete\<close>.
\<close>

type_synonym path = "string list"

datatype file_content = Incomplete | Document run_artifact

record file_system =
  dirs :: "path set"
  files :: "path \<Rightarrow> file_content option"

text \<open>
  \<^verbatim>\<open>OUT_PATH = ROOT / "data" / "cv" / "kill-bill-clip-detections.json"\<close>, where
  \<^verbatim>\<open>ROOT\<close> is the directory above the scripts' own; it is the parameter \<open>root_dir\<close>.
\<close>

definition OUT_PATH :: "path \<Rightarrow> path" where
  "OUT_PATH root_dir = root_dir @ [''data'', ''cv'', ''kill-bill-clip-detections.json'']"

text \<open>The path itself and every directory above it, the root excluded.\<close>

definition ancestors_or_self :: "path \<Rightarrow> path list" where
  "ancestors_or_self p = map (\<lambda>n. take n p) [1..<Suc (length p)]"

text \<open>
  \<^verbatim>\<open>p.mkdir(parents=True, exist_ok=True)\<close>: the directory and the missing directories
  above it are created; an existing directory is left alone; a regular file in the way
  raises (\<^verbatim>\<open>FileExistsError\<close> at the path itself, \<^verbatim>\<open>NotADirectoryError\<close> above it).
\<close>

definition mkdir_parents :: "path \<Rightarrow> file_system \<Rightarrow> py_error + file_system" where
  "mkdir_parents p fs =
     (if list_ex (\<lambda>q. files fs q \<noteq> None) (ancestors_or_self (butlast p))
      then Inl NotADirectoryError
      else if files fs p \<noteq> None then Inl FileExistsError
      else Inr (fs\<lparr>dirs := dirs fs \<union> set (ancestors_or_self p)\<rparr>))"

text \<open>
  \<^verbatim>\<open>p.open("w")\<close>: the file is created or, when it exists, truncated, at once.
\<close>

definition open_w :: "path \<Rightarrow> file_system \<Rightarrow> py_error + file_system" where
  "open_w p fs =
     (if p \<in> dirs fs then Inl IsADirectoryError
      else Inr (fs\<lparr>files := (files fs)(p \<mapsto> Incomplete)\<rparr>))"

text \<open>
  \<^verbatim>\<open>json.dump(artifact, f, indent=2)\<close> followed by the end of the \<^verbatim>\<open>with\<close> block: the
  file now holds the whole document.
\<close>

definition json_dump :: "run_artifact \<Rightarrow> path \<Rightarrow> file_system \<Rightarrow> file_system" where
  "json_dump art p fs = fs\<lparr>files := (files fs)(p \<mapsto> Document art)\<rparr>"

text \<open>
  The last lines of \<^verbatim>\<open>run_detection\<close>: \<^verbatim>\<open>OUT_PATH.parent.mkdir(...)\<close>,
  \<^verbatim>\<open>OUT_PATH.open("w")\<close>, \<^verbatim>\<open>json.dump\<close>. The result is the outcome together with
  the successive states of the file system, the initial one first; each of them can
  be seen by a reader of the file system.
\<close>

definition persist ::
  "path \<Rightarrow> run_artifact \<Rightarrow> file_system \<Rightarrow> (py_error + path) \<times> file_system list" where
  "persist out art fs =
     (case mkdir_parents (butlast out) fs of
        Inl e \<Rightarrow> (Inl e, [fs])
      | Inr fs1 \<Rightarrow>
          (case open_w out fs1 of
             Inl e \<Rightarrow> (Inl e, [fs, fs1])
           | Inr fs2 \<Rightarrow> (Inr out, [fs, fs1, fs2, json_dump art out fs2])))"

text \<open>
  A whole run: when the part before \<^verbatim>\<open>cap.release()\<close> raises, nothing is written.
\<close>

definition run_detection_yolo ::
  "path \<Rightarrow> 'px capture \<Rightarrow> 'px yolo_predict \<Rightarrow> real \<Rightarrow> real \<Rightarrow> int \<Rightarrow> file_system
     \<Rightarrow> (py_error + path) \<times> file_system list" where
  "run_detection_yolo root_dir cap predict sample_rate conf_thr imgsz fs =
     (case assemble_yolo cap predict sample_rate conf_thr imgsz of
        Inl e \<Rightarrow> (Inl e, [fs])
      | Inr art \<Rightarrow> persist (OUT_PATH root_dir) art fs)"

definition run_detection_owl ::
  "path \<Rightarrow> 'px capture \<Rightarrow> 'px owl_detect \<Rightarrow> real \<Rightarrow> real \<Rightarrow> string \<Rightarrow> string list option
     \<Rightarrow> file_system \<Rightarrow> (py_error + path) \<times> file_system list" where
  "run_detection_owl root_dir cap detect sample_rate score_threshold model_id prompts_arg fs =
     (case assemble_owl cap detect sample_rate score_threshold model_id prompts_arg of
        Inl e \<Rightarrow> (Inl e, [fs])
      | Inr art \<Rightarrow> persist (OUT_PATH root_dir) art fs)"

section \<open>Properties of the sampler\<close>

lemma py_round_lower: "x - 1 / 2 \<le> of_int (py_round x)"
  unfolding py_round_def Let_def by (auto; linarith)

lemma py_round_upper: "of_int (py_round x) \<le> x + 1 / 2"
  unfolding py_round_def Let_def by (auto; linarith)

lemma py_round_le_one:
  assumes "x \<le> 1"
  shows "py_round x \<le> 1"
proof -
  have "real_of_int (py_round x) \<le> 3 / 2"
    using py_round_upper [of x] assms by linarith
  then have "real_of_int (py_round x) < 2" by linarith
  then have "py_round x < 2" by linarith
  then show ?thesis by simp
qed

text \<open>
  Claim C3. For positive source and target rates the stride is
  \<open>max 1 (round (source_fps / target_fps))\<close>, with Python's \<^verbatim>\<open>round\<close>; it is at least 1
  and it is 1 whenever the target rate is at least the source rate. A reported source
  rate of zero (what the capture reports when the rate is unavailable) is replaced by
  30 before the division, and any other reported rate is used as it is, so the rate
  that is divided is never zero; the run divides this rate, and records it as
  \<^verbatim>\<open>video_fps\<close>.
\<close>

theorem stride_positive_integer:
  "(0 < source_fps \<and> 0 < target_fps \<longrightarrow>
      stride source_fps target_fps = Inr (max 1 (py_round (source_fps / target_fps)))
      \<and> (\<exists>s. stride source_fps target_fps = Inr s \<and> 1 \<le> s)
      \<and> (source_fps \<le> target_fps \<longrightarrow> stride source_fps target_fps = Inr 1))
   \<and> video_fps_of 0 = 30
   \<and> (reported \<noteq> 0 \<longrightarrow> video_fps_of reported = reported)
   \<and> stride (video_fps_of 0) target_fps = stride 30 target_fps
   \<and> (reported \<noteq> 0 \<longrightarrow>
        stride (video_fps_of reported) target_fps = stride reported target_fps)
   \<and> video_fps_of reported \<noteq> 0
   \<and> (assemble_yolo cap predict target_fps conf_thr imgsz = Inr art \<longrightarrow>
        video_fps art = video_fps_of (prop_fps cap) \<and>
        (\<exists>s. stride (video_fps_of (prop_fps cap)) target_fps = Inr s))
   \<and> (assemble_owl cap detect target_fps thr model_id prompts_arg = Inr art' \<longrightarrow>
        video_fps art' = video_fps_of (prop_fps cap) \<and>
        (\<exists>s. stride (video_fps_of (prop_fps cap)) target_fps = Inr s))"
proof -
  have a: "stride source_fps target_fps = Inr 1"
    if "0 < source_fps" "0 < target_fps" "source_fps \<le> target_fps"
  proof -
    from that have "source_fps / target_fps \<le> 1" by simp
    then have "py_round (source_fps / target_fps) \<le> 1" by (rule py_round_le_one)
    then have "max 1 (py_round (source_fps / target_fps)) = 1" by simp
    with that show ?thesis by (simp add: stride_def)
  qed
  have b: "video_fps art = video_fps_of (prop_fps cap) \<and>
        (\<exists>s. stride (video_fps_of (prop_fps cap)) target_fps = Inr s)"
    if "assemble_yolo cap predict target_fps conf_thr imgsz = Inr art"
    using that by (auto simp: assemble_yolo_def Let_def split: if_splits sum.splits)
  have c: "video_fps art' = video_fps_of (prop_fps cap) \<and>
        (\<exists>s. stride (video_fps_of (prop_fps cap)) target_fps = Inr s)"
    if "assemble_owl cap detect target_fps thr model_id prompts_arg = Inr art'"
    using that by (auto simp: assemble_owl_def Let_def split: if_splits sum.splits)
  have d: "(0 < source_fps \<and> 0 < target_fps \<longrightarrow>
      stride source_fps target_fps = Inr (max 1 (py_round (source_fps / target_fps)))
      \<and> (\<exists>s. stride source_fps target_fps = Inr s \<and> 1 \<le> s)
      \<and> (source_fps \<le> target_fps \<longrightarrow> stride source_fps target_fps = Inr 1))
   \<and> video_fps_of 0 = 30
   \<and> (reported \<noteq> 0 \<longrightarrow> video_fps_of reported = reported)
   \<and> stride (video_fps_of 0) target_fps = stride 30 target_fps
   \<and> (reported \<noteq> 0 \<longrightarrow>
        stride (video_fps_of reported) target_fps = stride reported target_fps)
   \<and> video_fps_of reported \<noteq> 0"
    using a by (simp add: stride_def video_fps_of_def)
  from b c d show ?thesis by blast
qed

theorem stride_positive_integer_witness:
  "stride 30 3 = Inr 10 \<and> stride 24 30 = Inr 1 \<and> stride 25 10 = Inr 2
   \<and> stride (video_fps_of 0) 3 = Inr 10
   \<and> video_fps_of 25 = 25 \<and> stride (video_fps_of 25) 10 = Inr 2"
proof -
  note A = stride_positive_integer [where source_fps = 30 and target_fps = 3, THEN conjunct1]
  note B = stride_positive_integer [where source_fps = 24 and target_fps = 30, THEN conjunct1]
  note C = stride_positive_integer [where source_fps = 25 and target_fps = 10, THEN conjunct1]
  note D = stride_positive_integer [where target_fps = 3,
      THEN conjunct2, THEN conjunct2, THEN conjunct2, THEN conjunct1]
  note E = stride_positive_integer [where reported = 25,
      THEN conjunct2, THEN conjunct2, THEN conjunct1]
  note F = stride_positive_integer [where reported = 25 and target_fps = 10,
      THEN conjunct2, THEN conjunct2, THEN conjunct2, THEN conjunct2, THEN conjunct1]
  have "stride 30 3 = Inr (max 1 (py_round (30 / 3)))" using A by simp
  moreover have "stride 24 30 = Inr 1" using B by (simp add: py_round_def)
  moreover have "stride 25 10 = Inr (max 1 (py_round (25 / 10)))" using C by simp
  moreover have "stride (video_fps_of 0) 3 = stride 30 3" using D by simp
  moreover have "video_fps_of 25 = 25" using E by simp
  moreover have "stride (video_fps_of 25) 10 = stride 25 10" using F by simp
  ultimately show ?thesis by (simp add: py_round_def)
qed

section \<open>Auxiliary facts about the normaliser\<close>

lemma py_int_mono:
  assumes "x \<le> y"
  shows "py_int x \<le> py_int y"
proof (cases "0 \<le> x")
  case True
  with assms show ?thesis by (simp add: py_int_def floor_mono)
next
  case False
  show ?thesis
  proof (cases "0 \<le> y")
    case True
    from False have "\<lceil>x\<rceil> \<le> 0" by (simp add: ceiling_le_zero)
    moreover from True have "0 \<le> \<lfloor>y\<rfloor>" by simp
    ultimately have "\<lceil>x\<rceil> \<le> \<lfloor>y\<rfloor>" by linarith
    with False True show ?thesis by (simp add: py_int_def)
  next
    case nonneg: False
    with False assms show ?thesis by (simp add: py_int_def ceiling_mono)
  qed
qed

lemma py_int_of_int [simp]: "py_int (of_int k) = k"
  by (simp add: py_int_def)

lemma py_int_zero [simp]: "py_int 0 = 0"
  by (simp add: py_int_def)

lemma py_int_close: "\<bar>x - of_int (py_int x)\<bar> < 1"
  unfolding py_int_def by (auto; linarith)

lemma py_round_nd_grid: "\<exists>k. py_round_nd x n = of_int k / 10 ^ n"
  by (auto simp: py_round_nd_def)

lemma py_round_nd_close: "\<bar>py_round_nd x n - x\<bar> \<le> 1 / (2 * 10 ^ n)"
proof -
  let ?p = "(10::real) ^ n"
  have p: "0 < ?p" by simp
  have "\<bar>of_int (py_round (x * ?p)) - x * ?p\<bar> \<le> 1 / 2"
    using py_round_lower [of "x * ?p"] py_round_upper [of "x * ?p"] by linarith
  then have "\<bar>of_int (py_round (x * ?p)) - x * ?p\<bar> / ?p \<le> (1 / 2) / ?p"
    by (rule divide_right_mono) simp
  moreover have "(of_int (py_round (x * ?p)) - x * ?p) / ?p = py_round_nd x n - x"
    by (simp add: py_round_nd_def diff_divide_distrib)
  then have "\<bar>of_int (py_round (x * ?p)) - x * ?p\<bar> / ?p = \<bar>py_round_nd x n - x\<bar>"
    using p by (metis abs_divide abs_of_pos)
  ultimately show ?thesis by simp
qed

lemma yolo_boxes_loop_mem:
  "yolo_boxes_loop allowed nm w h bs acc = Inr ds \<Longrightarrow> d \<in> set ds \<Longrightarrow>
     d \<in> set acc \<or> (\<exists>b \<in> set bs. yolo_box_step allowed nm w h b = Inr (Some d))"
proof (induction bs arbitrary: acc)
  case Nil
  then show ?case by simp
next
  case (Cons b bs)
  then show ?case
    by (fastforce split: sum.splits option.splits)
qed

lemma owl_boxes_loop_mem:
  "owl_boxes_loop prompts w h ts acc = Inr ds \<Longrightarrow> d \<in> set ds \<Longrightarrow>
     d \<in> set acc \<or> (\<exists>t \<in> set ts. owl_box_step prompts w h t = Inr d)"
proof (induction ts arbitrary: acc)
  case Nil
  then show ?case by simp
next
  case (Cons t ts)
  then show ?case
    by (fastforce split: sum.splits)
qed

lemma yolo_box_step_emits:
  assumes "yolo_box_step allowed nm w h b = Inr (Some d)"
  shows "\<exists>row rest cid cs.
           xyxy b = row # rest \<and> length row = 4 \<and>
           cls_id_of (cls b) = Inr cid \<and> conf_score_of (conf b) = Inr cs \<and>
           (allowed = {} \<or> label_name_of nm cid \<in> allowed) \<and>
           make_box (label_name_of nm cid) cs w h
             (clamp_box w h (row ! 0, row ! 1, row ! 2, row ! 3)) = Inr d"
  using assms
  by (cases "xyxy b")
     (auto simp: yolo_box_step_def py_index_def unpack4_def Let_def
           split: sum.splits if_splits)

lemma owl_box_step_emits:
  assumes "owl_box_step prompts w h (box, score, label_idx) = Inr d"
  shows "\<exists>lbl. py_index prompts label_idx = Inr lbl \<and> length box = 4 \<and>
           make_box lbl (Some score) w h
             (clamp_box w h (box ! 0, box ! 1, box ! 2, box ! 3)) = Inr d"
  using assms
  by (auto simp: owl_box_step_def unpack4_def split: sum.splits if_splits)

lemma yolo_frame_boxes_mem:
  assumes "yolo_frame_boxes allowed w h results = Inr ds" "d \<in> set ds"
  shows "\<exists>r rest bs b. results = r # rest \<and> r_boxes r = Some bs \<and> b \<in> set bs \<and>
           yolo_box_step allowed (r_names r) w h b = Inr (Some d)"
  using assms yolo_boxes_loop_mem [of allowed _ w h _ "[]" ds d]
  by (auto simp: yolo_frame_boxes_def split: list.splits option.splits)

lemma owl_frame_boxes_mem:
  assumes "owl_frame_boxes prompts w h res = Inr ds" "d \<in> set ds"
  shows "\<exists>t \<in> set (zip (res_boxes res) (zip (res_scores res) (res_labels res))).
           owl_box_step prompts w h t = Inr d"
  using assms owl_boxes_loop_mem [of prompts w h _ "[]" ds d]
  by (auto simp: owl_frame_boxes_def)

lemma length4_eq: "length row = 4 \<Longrightarrow> row = [row ! 0, row ! 1, row ! 2, row ! 3]"
  by (auto simp: list_eq_iff_nth_eq less_Suc_eq numeral_eq_Suc)

lemma yolo_emitted:
  assumes "yolo_frame_boxes allowed w h results = Inr ds" "d \<in> set ds"
  shows "\<exists>r rest bs b x1 y1 x2 y2 more cid cs.
           results = r # rest \<and> r_boxes r = Some bs \<and> b \<in> set bs \<and>
           xyxy b = [x1, y1, x2, y2] # more \<and>
           cls_id_of (cls b) = Inr cid \<and> conf_score_of (conf b) = Inr cs \<and>
           (allowed = {} \<or> label_name_of (r_names r) cid \<in> allowed) \<and>
           make_box (label_name_of (r_names r) cid) cs w h (clamp_box w h (x1, y1, x2, y2))
             = Inr d"
proof -
  from assms obtain r rest bs b where rb: "results = r # rest" "r_boxes r = Some bs" "b \<in> set bs"
    and st: "yolo_box_step allowed (r_names r) w h b = Inr (Some d)"
    using yolo_frame_boxes_mem by blast
  from yolo_box_step_emits [OF st] obtain row more cid cs where
    row: "xyxy b = row # more" "length row = 4" and
    c: "cls_id_of (cls b) = Inr cid" "conf_score_of (conf b) = Inr cs"
       "allowed = {} \<or> label_name_of (r_names r) cid \<in> allowed" and
    mk: "make_box (label_name_of (r_names r) cid) cs w h
           (clamp_box w h (row ! 0, row ! 1, row ! 2, row ! 3)) = Inr d"
    by blast
  from row(2) have "row = [row ! 0, row ! 1, row ! 2, row ! 3]" by (rule length4_eq)
  with row(1) have x: "xyxy b = [row ! 0, row ! 1, row ! 2, row ! 3] # more" by simp
  from rb x c mk show ?thesis by blast
qed

lemma owl_emitted:
  assumes "owl_frame_boxes prompts w h res = Inr ds" "d \<in> set ds"
  shows "\<exists>x1 y1 x2 y2 score idx lbl.
           ([x1, y1, x2, y2], score, idx)
             \<in> set (zip (res_boxes res) (zip (res_scores res) (res_labels res))) \<and>
           py_index prompts idx = Inr lbl \<and>
           make_box lbl (Some score) w h (clamp_box w h (x1, y1, x2, y2)) = Inr d"
proof -
  from assms obtain box score idx where
    t: "(box, score, idx) \<in> set (zip (res_boxes res) (zip (res_scores res) (res_labels res)))"
    and st: "owl_box_step prompts w h (box, score, idx) = Inr d"
    using owl_frame_boxes_mem by (metis prod_cases3)
  from owl_box_step_emits [OF st] obtain lbl where
    l: "py_index prompts idx = Inr lbl" and len: "length box = 4" and
    mk: "make_box lbl (Some score) w h
           (clamp_box w h (box ! 0, box ! 1, box ! 2, box ! 3)) = Inr d"
    by blast
  from length4_eq [OF len] t
  have "([box ! 0, box ! 1, box ! 2, box ! 3], score, idx)
          \<in> set (zip (res_boxes res) (zip (res_scores res) (res_labels res)))"
    by simp
  with l mk show ?thesis by blast
qed

lemma make_box_fields:
  assumes "make_box l c w h (clamp_box w h (x1, y1, x2, y2)) = Inr d"
  shows "0 < w" "0 < h" "label d = l"
    "confidence d = (case c of None \<Rightarrow> None | Some v \<Rightarrow> Some (py_round_nd v 3))"
    "bbox_px d = [py_int (max 0 x1), py_int (max 0 y1),
                  py_int (min (real w - 1) x2), py_int (min (real h - 1) y2)]"
    "bbox_pct d = [py_round_nd (100 * max 0 x1 / real w) 2,
                   py_round_nd (100 * max 0 y1 / real h) 2,
                   py_round_nd (100 * min (real w - 1) x2 / real w) 2,
                   py_round_nd (100 * min (real h - 1) y2 / real h) 2]"
  using assms by (auto simp: make_box_def clamp_box_def split: if_splits)

section \<open>Pixel boxes\<close>

lemmas eval_defs = yolo_frame_boxes_def yolo_box_step_def owl_frame_boxes_def owl_box_step_def
  py_index_def unpack4_def cls_id_of_def conf_score_of_def clamp_box_def label_name_of_def
  make_box_def ALLOWED_CLASSES_def py_int_def py_round_nd_def py_round_def

lemma py_int_nonneg_iff: "0 \<le> py_int m \<longleftrightarrow> - 1 < m"
proof (cases "0 \<le> m")
  case True
  then show ?thesis by (simp add: py_int_def)
next
  case False
  then have "py_int m = \<lceil>m\<rceil>" by (simp add: py_int_def)
  moreover have "0 \<le> \<lceil>m\<rceil> \<longleftrightarrow> - 1 < m" by (simp add: le_ceiling_iff)
  ultimately show ?thesis by simp
qed

lemma py_int_succ_gt: "m < of_int (py_int m) + 1"
  using py_int_close [of m] by linarith

lemma clamped_px_order:
  fixes lo hi :: real and n :: nat
  assumes "0 < n"
  shows "0 \<le> py_int (max 0 lo) \<and>
         py_int (min (real n - 1) hi) \<le> int n - 1 \<and>
         (py_int (max 0 lo) \<le> py_int (min (real n - 1) hi)
            \<longleftrightarrow> - 1 < hi \<and> lo < of_int (py_int (min (real n - 1) hi)) + 1) \<and>
         (lo \<le> hi \<and> 0 \<le> hi \<and> lo < real n
            \<longrightarrow> py_int (max 0 lo) \<le> py_int (min (real n - 1) hi))"
proof -
  let ?m = "min (real n - 1) hi"
  let ?p = "py_int ?m"
  have fl: "py_int (max 0 lo) = \<lfloor>max 0 lo\<rfloor>" by (simp add: py_int_def)
  have c1: "0 \<le> py_int (max 0 lo)" unfolding fl by simp
  have "?p \<le> py_int (of_int (int n - 1))"
    by (rule py_int_mono) simp
  then have c2: "?p \<le> int n - 1" by (simp only: py_int_of_int)
  have nn: "0 \<le> ?p \<longleftrightarrow> - 1 < hi"
    using assms by (simp add: py_int_nonneg_iff)
  have "\<lfloor>max 0 lo\<rfloor> \<le> ?p \<longleftrightarrow> max 0 lo < of_int ?p + 1"
    by (simp add: floor_le_iff)
  also have "\<dots> \<longleftrightarrow> 0 \<le> ?p \<and> lo < of_int ?p + 1"
  proof -
    have "(0 :: real) < of_int ?p + 1 \<longleftrightarrow> 0 \<le> ?p" by linarith
    then show ?thesis by auto
  qed
  finally have c3: "py_int (max 0 lo) \<le> ?p \<longleftrightarrow> - 1 < hi \<and> lo < of_int ?p + 1"
    unfolding fl nn .
  have c4: "lo \<le> hi \<and> 0 \<le> hi \<and> lo < real n \<longrightarrow> py_int (max 0 lo) \<le> ?p"
  proof
    assume a: "lo \<le> hi \<and> 0 \<le> hi \<and> lo < real n"
    have "lo < of_int ?p + 1"
    proof (cases "hi \<le> real n - 1")
      case True
      then have "?m = hi" by simp
      with py_int_succ_gt [of ?m] a show ?thesis by linarith
    next
      case False
      then have "?m = of_int (int n - 1)" by simp
      then have "?p = int n - 1" by (simp only: py_int_of_int)
      with a show ?thesis by simp
    qed
    with a c3 show "py_int (max 0 lo) \<le> ?p" by simp
  qed
  from c1 c2 c3 c4 show ?thesis by blast
qed

lemma make_box_px_chain:
  assumes mk: "make_box l c w h (clamp_box w h (x1, y1, x2, y2)) = Inr d"
  shows "\<exists>p1 q1 p2 q2.
           p1 = py_int (max 0 x1) \<and> q1 = py_int (max 0 y1) \<and>
           p2 = py_int (min (real w - 1) x2) \<and> q2 = py_int (min (real h - 1) y2) \<and>
           bbox_px d = [p1, q1, p2, q2] \<and>
           0 \<le> p1 \<and> 0 \<le> q1 \<and> p2 \<le> int w - 1 \<and> q2 \<le> int h - 1 \<and>
           (p1 \<le> p2 \<longleftrightarrow> - 1 < x2 \<and> x1 < of_int p2 + 1) \<and>
           (q1 \<le> q2 \<longleftrightarrow> - 1 < y2 \<and> y1 < of_int q2 + 1) \<and>
           (x1 \<le> x2 \<and> 0 \<le> x2 \<and> x1 < real w \<longrightarrow> p1 \<le> p2) \<and>
           (y1 \<le> y2 \<and> 0 \<le> y2 \<and> y1 < real h \<longrightarrow> q1 \<le> q2)"
proof -
  note f = make_box_fields [OF mk]
  note a = clamped_px_order [OF f(1), of x1 x2]
  note b = clamped_px_order [OF f(2), of y1 y2]
  show ?thesis
    apply (intro exI conjI)
                apply (rule refl)
               apply (rule refl)
              apply (rule refl)
             apply (rule refl)
            apply (rule f(5))
           apply (rule a [THEN conjunct1])
          apply (rule b [THEN conjunct1])
         apply (rule a [THEN conjunct2, THEN conjunct1])
        apply (rule b [THEN conjunct2, THEN conjunct1])
       apply (rule a [THEN conjunct2, THEN conjunct2, THEN conjunct1])
      apply (rule b [THEN conjunct2, THEN conjunct2, THEN conjunct1])
     apply (rule a [THEN conjunct2, THEN conjunct2, THEN conjunct2])
    apply (rule b [THEN conjunct2, THEN conjunct2, THEN conjunct2])
    done
qed

text \<open>
  Claim C1, as amended. Every emitted detection \<open>d\<close> is the record that the script
  builds from one raw box \<open>(x1, y1, x2, y2)\<close> of the detector's output, and its
  \<^verbatim>\<open>bbox_px\<close> is \<open>[p1, q1, p2, q2]\<close>, the truncations of the clamped coordinates of that
  box, with \<open>0 \<le> p1\<close>, \<open>0 \<le> q1\<close>, \<open>p2 \<le> width - 1\<close> and \<open>q2 \<le> height - 1\<close>. The
  clamping is one-sided (the first corner from below, the second from above), so the
  orders \<open>p1 \<le> p2\<close> and \<open>q1 \<le> q2\<close>, and with them the full chains
  \<open>0 \<le> p1 \<le> p2 \<le> width - 1\<close> and \<open>0 \<le> q1 \<le> q2 \<le> height - 1\<close>, hold exactly when
  \<open>- 1 < x2\<close> and \<open>x1 < p2 + 1\<close> (and the same for \<open>y\<close>); in particular they hold when
  the raw box is ordered and meets the frame: \<open>x1 \<le> x2\<close>, \<open>0 \<le> x2\<close>, \<open>x1 < width\<close>, and
  the same for \<open>y\<close>. Both backends.
\<close>

theorem bbox_px_clamped:
  "(yolo_frame_boxes allowed w h results = Inr ds \<and> d \<in> set ds \<longrightarrow>
      (\<exists>r rest bs b x1 y1 x2 y2 more cid cs p1 q1 p2 q2.
         results = r # rest \<and> r_boxes r = Some bs \<and> b \<in> set bs \<and>
         xyxy b = [x1, y1, x2, y2] # more \<and>
         cls_id_of (cls b) = Inr cid \<and> conf_score_of (conf b) = Inr cs \<and>
         make_box (label_name_of (r_names r) cid) cs w h (clamp_box w h (x1, y1, x2, y2))
           = Inr d \<and>
         p1 = py_int (max 0 x1) \<and> q1 = py_int (max 0 y1) \<and>
         p2 = py_int (min (real w - 1) x2) \<and> q2 = py_int (min (real h - 1) y2) \<and>
         bbox_px d = [p1, q1, p2, q2] \<and>
         0 \<le> p1 \<and> 0 \<le> q1 \<and> p2 \<le> int w - 1 \<and> q2 \<le> int h - 1 \<and>
         (p1 \<le> p2 \<longleftrightarrow> - 1 < x2 \<and> x1 < of_int p2 + 1) \<and>
         (q1 \<le> q2 \<longleftrightarrow> - 1 < y2 \<and> y1 < of_int q2 + 1) \<and>
         (x1 \<le> x2 \<and> 0 \<le> x2 \<and> x1 < real w \<longrightarrow> p1 \<le> p2) \<and>
         (y1 \<le> y2 \<and> 0 \<le> y2 \<and> y1 < real h \<longrightarrow> q1 \<le> q2)))
   \<and> (owl_frame_boxes prompts w' h' res = Inr ds' \<and> d' \<in> set ds' \<longrightarrow>
      (\<exists>x1 y1 x2 y2 score idx lbl p1 q1 p2 q2.
         ([x1, y1, x2, y2], score, idx)
           \<in> set (zip (res_boxes res) (zip (res_scores res) (res_labels res))) \<and>
         py_index prompts idx = Inr lbl \<and>
         make_box lbl (Some score) w' h' (clamp_box w' h' (x1, y1, x2, y2)) = Inr d' \<and>
         p1 = py_int (max 0 x1) \<and> q1 = py_int (max 0 y1) \<and>
         p2 = py_int (min (real w' - 1) x2) \<and> q2 = py_int (min (real h' - 1) y2) \<and>
         bbox_px d' = [p1, q1, p2, q2] \<and>
         0 \<le> p1 \<and> 0 \<le> q1 \<and> p2 \<le> int w' - 1 \<and> q2 \<le> int h' - 1 \<and>
         (p1 \<le> p2 \<longleftrightarrow> - 1 < x2 \<and> x1 < of_int p2 + 1) \<and>
         (q1 \<le> q2 \<longleftrightarrow> - 1 < y2 \<and> y1 < of_int q2 + 1) \<and>
         (x1 \<le> x2 \<and> 0 \<le> x2 \<and> x1 < real w' \<longrightarrow> p1 \<le> p2) \<and>
         (y1 \<le> y2 \<and> 0 \<le> y2 \<and> y1 < real h' \<longrightarrow> q1 \<le> q2)))"
proof (intro conjI impI)
  assume "yolo_frame_boxes allowed w h results = Inr ds \<and> d \<in> set ds"
  then have "yolo_frame_boxes allowed w h results = Inr ds" "d \<in> set ds" by simp_all
  from yolo_emitted [OF this] obtain r rest bs b x1 y1 x2 y2 more cid cs where
    a: "results = r # rest" "r_boxes r = Some bs" "b \<in> set bs"
       "xyxy b = [x1, y1, x2, y2] # more"
       "cls_id_of (cls b) = Inr cid" "conf_score_of (conf b) = Inr cs" and
    mk: "make_box (label_name_of (r_names r) cid) cs w h (clamp_box w h (x1, y1, x2, y2))
           = Inr d"
    by blast
  from make_box_px_chain [OF mk] a mk
  show "\<exists>r rest bs b x1 y1 x2 y2 more cid cs p1 q1 p2 q2.
         results = r # rest \<and> r_boxes r = Some bs \<and> b \<in> set bs \<and>
         xyxy b = [x1, y1, x2, y2] # more \<and>
         cls_id_of (cls b) = Inr cid \<and> conf_score_of (conf b) = Inr cs \<and>
         make_box (label_name_of (r_names r) cid) cs w h (clamp_box w h (x1, y1, x2, y2))
           = Inr d \<and>
         p1 = py_int (max 0 x1) \<and> q1 = py_int (max 0 y1) \<and>
         p2 = py_int (min (real w - 1) x2) \<and> q2 = py_int (min (real h - 1) y2) \<and>
         bbox_px d = [p1, q1, p2, q2] \<and>
         0 \<le> p1 \<and> 0 \<le> q1 \<and> p2 \<le> int w - 1 \<and> q2 \<le> int h - 1 \<and>
         (p1 \<le> p2 \<longleftrightarrow> - 1 < x2 \<and> x1 < of_int p2 + 1) \<and>
         (q1 \<le> q2 \<longleftrightarrow> - 1 < y2 \<and> y1 < of_int q2 + 1) \<and>
         (x1 \<le> x2 \<and> 0 \<le> x2 \<and> x1 < real w \<longrightarrow> p1 \<le> p2) \<and>
         (y1 \<le> y2 \<and> 0 \<le> y2 \<and> y1 < real h \<longrightarrow> q1 \<le> q2)"
    by blast
next
  assume "owl_frame_boxes prompts w' h' res = Inr ds' \<and> d' \<in> set ds'"
  then have "owl_frame_boxes prompts w' h' res = Inr ds'" "d' \<in> set ds'" by simp_all
  from owl_emitted [OF this] obtain x1 y1 x2 y2 score idx lbl where
    t: "([x1, y1, x2, y2], score, idx)
          \<in> set (zip (res_boxes res) (zip (res_scores res) (res_labels res)))"
       "py_index prompts idx = Inr lbl" and
    mk: "make_box lbl (Some score) w' h' (clamp_box w' h' (x1, y1, x2, y2)) = Inr d'"
    by blast
  from make_box_px_chain [OF mk] t mk
  show "\<exists>x1 y1 x2 y2 score idx lbl p1 q1 p2 q2.
         ([x1, y1, x2, y2], score, idx)
           \<in> set (zip (res_boxes res) (zip (res_scores res) (res_labels res))) \<and>
         py_index prompts idx = Inr lbl \<and>
         make_box lbl (Some score) w' h' (clamp_box w' h' (x1, y1, x2, y2)) = Inr d' \<and>
         p1 = py_int (max 0 x1) \<and> q1 = py_int (max 0 y1) \<and>
         p2 = py_int (min (real w' - 1) x2) \<and> q2 = py_int (min (real h' - 1) y2) \<and>
         bbox_px d' = [p1, q1, p2, q2] \<and>
         0 \<le> p1 \<and> 0 \<le> q1 \<and> p2 \<le> int w' - 1 \<and> q2 \<le> int h' - 1 \<and>
         (p1 \<le> p2 \<longleftrightarrow> - 1 < x2 \<and> x1 < of_int p2 + 1) \<and>
         (q1 \<le> q2 \<longleftrightarrow> - 1 < y2 \<and> y1 < of_int q2 + 1) \<and>
         (x1 \<le> x2 \<and> 0 \<le> x2 \<and> x1 < real w' \<longrightarrow> p1 \<le> p2) \<and>
         (y1 \<le> y2 \<and> 0 \<le> y2 \<and> y1 < real h' \<longrightarrow> q1 \<le> q2)"
    by blast
qed


text \<open>
  The chain as the claim states it, for every raw box, fails: a box that lies to the
  right of a 640 by 480 frame keeps its first corner at 650, beyond 639, and an
  unordered box with a negative second corner keeps it negative.
\<close>

theorem bbox_px_chain_counterexample:
  "owl_frame_boxes [''katana''] 640 480
     \<lparr>res_boxes = [[650, 2, 700, 400]], res_scores = [1 / 2], res_labels = [0]\<rparr>
   = Inr [\<lparr>label = ''katana'', confidence = Some (1 / 2),
            bbox_px = [650, 2, 639, 400],
            bbox_pct = [10156 / 100, 42 / 100, 9984 / 100, 8333 / 100]\<rparr>]
   \<and> yolo_frame_boxes ALLOWED_CLASSES 640 480
     [\<lparr>r_names = NamesDict [0 \<mapsto> ''person''],
       r_boxes = Some [\<lparr>xyxy = [[5, 5, - 10, - 10]], cls = Some [0], conf = None\<rparr>]\<rparr>]
   = Inr [\<lparr>label = ''person'', confidence = None,
            bbox_px = [5, 5, - 10, - 10],
            bbox_pct = [78 / 100, 104 / 100, - (156 / 100), - (208 / 100)]\<rparr>]
   \<and> \<not> ((650::int) \<le> 639) \<and> \<not> ((0::int) \<le> - 10)"
  by (simp add: eval_defs)

theorem bbox_px_clamped_witness:
  "yolo_frame_boxes ALLOWED_CLASSES 640 480
     [\<lparr>r_names = NamesDict [0 \<mapsto> ''person''],
       r_boxes = Some [\<lparr>xyxy = [[- 5, 2, 650, 400]], cls = Some [0], conf = None\<rparr>]\<rparr>]
   = Inr [\<lparr>label = ''person'', confidence = None,
           bbox_px = [0, 2, 639, 400],
           bbox_pct = [0, 42 / 100, 9984 / 100, 8333 / 100]\<rparr>]
   \<and> owl_frame_boxes [''katana''] 640 480
     \<lparr>res_boxes = [[6395 / 10, 2, 650, 400]], res_scores = [1 / 2], res_labels = [0]\<rparr>
   = Inr [\<lparr>label = ''katana'', confidence = Some (1 / 2),
            bbox_px = [639, 2, 639, 400],
            bbox_pct = [9992 / 100, 42 / 100, 9984 / 100, 8333 / 100]\<rparr>]
   \<and> (- 5 :: real) \<le> 650 \<and> (0 :: real) \<le> 650 \<and> (- 5 :: real) < real 640
   \<and> (6395 / 10 :: real) \<le> 650 \<and> (6395 / 10 :: real) < real 640
   \<and> (0 :: int) \<le> 0 \<and> (0 :: int) \<le> 639 \<and> (639 :: int) \<le> int 640 - 1
   \<and> (639 :: int) \<le> 639 \<and> (2 :: int) \<le> 400 \<and> (400 :: int) \<le> int 480 - 1"
proof -
  let ?D = "\<lparr>label = ''person'', confidence = None,
           bbox_px = [0, 2, 639, 400],
           bbox_pct = [0, 42 / 100, 9984 / 100, 8333 / 100]\<rparr>"
  let ?E = "\<lparr>label = ''katana'', confidence = Some (1 / 2),
            bbox_px = [639, 2, 639, 400],
            bbox_pct = [9992 / 100, 42 / 100, 9984 / 100, 8333 / 100]\<rparr>"
  let ?R = "[\<lparr>r_names = NamesDict [0 \<mapsto> ''person''],
       r_boxes = Some [\<lparr>xyxy = [[- 5, 2, 650, 400]], cls = Some [0], conf = None\<rparr>]\<rparr>]"
  let ?O = "\<lparr>res_boxes = [[6395 / 10, 2, 650, 400]], res_scores = [1 / 2],
            res_labels = [0]\<rparr>"
  have y: "yolo_frame_boxes ALLOWED_CLASSES 640 480 ?R = Inr [?D]"
    by (simp add: eval_defs)
  have o: "owl_frame_boxes [''katana''] 640 480 ?O = Inr [?E]"
    by (simp add: eval_defs)
  note T = bbox_px_clamped [where allowed = ALLOWED_CLASSES and w = 640 and h = 480
      and results = ?R and ds = "[?D]" and d = ?D and prompts = "[''katana'']" and w' = 640
      and h' = 480 and res = ?O and ds' = "[?E]" and d' = ?E]
  have hy: "yolo_frame_boxes ALLOWED_CLASSES 640 480 ?R = Inr [?D] \<and> ?D \<in> set [?D]"
    using y by simp
  have ho: "owl_frame_boxes [''katana''] 640 480 ?O = Inr [?E] \<and> ?E \<in> set [?E]"
    using o by simp
  from T [THEN conjunct1, THEN mp, OF hy]
  have cy: "(0 :: int) \<le> 0 \<and> (0 :: int) \<le> 639 \<and> (639 :: int) \<le> int 640 - 1
            \<and> (2 :: int) \<le> 400 \<and> (400 :: int) \<le> int 480 - 1"
    by simp
  from T [THEN conjunct2, THEN mp, OF ho]
  have co: "(639 :: int) \<le> 639"
    by simp
  from y o cy co show ?thesis by simp
qed

section \<open>Percentage boxes\<close>

text \<open>
  Claim C2. Every emitted detection comes from a raw box \<open>(x1, y1, x2, y2)\<close> of the
  detector's output, and with the clamped coordinates \<open>max 0 x1\<close>, \<open>max 0 y1\<close>,
  \<open>min (w - 1) x2\<close>, \<open>min (h - 1) y2\<close> its \<^verbatim>\<open>bbox_pct[k]\<close> is
  \<open>round (100 * c / dimension, 2)\<close> of the clamped coordinate \<open>c\<close> itself, the width
  dividing the \<open>x\<close> coordinates and the height the \<open>y\<close> coordinates, while \<^verbatim>\<open>bbox_px[k]\<close>
  is the truncation of the same \<open>c\<close>. Rounding to \<open>n\<close> digits gives a multiple of
  \<open>10\<^sup>-\<^sup>n\<close> at distance at most half of it. Both backends.
\<close>

theorem bbox_pct_from_clamped_floats:
  "(yolo_frame_boxes allowed w h results = Inr ds \<and> d \<in> set ds \<longrightarrow>
      (\<exists>r rest bs b x1 y1 x2 y2 more.
         results = r # rest \<and> r_boxes r = Some bs \<and> b \<in> set bs \<and>
         xyxy b = [x1, y1, x2, y2] # more \<and> 0 < w \<and> 0 < h \<and>
         bbox_px d = [py_int (max 0 x1), py_int (max 0 y1),
                      py_int (min (real w - 1) x2), py_int (min (real h - 1) y2)] \<and>
         bbox_pct d = [py_round_nd (100 * max 0 x1 / real w) 2,
                       py_round_nd (100 * max 0 y1 / real h) 2,
                       py_round_nd (100 * min (real w - 1) x2 / real w) 2,
                       py_round_nd (100 * min (real h - 1) y2 / real h) 2]))
   \<and> (owl_frame_boxes prompts w' h' res = Inr ds' \<and> d' \<in> set ds' \<longrightarrow>
      (\<exists>x1 y1 x2 y2.
         [x1, y1, x2, y2] \<in> set (res_boxes res) \<and> 0 < w' \<and> 0 < h' \<and>
         bbox_px d' = [py_int (max 0 x1), py_int (max 0 y1),
                       py_int (min (real w' - 1) x2), py_int (min (real h' - 1) y2)] \<and>
         bbox_pct d' = [py_round_nd (100 * max 0 x1 / real w') 2,
                        py_round_nd (100 * max 0 y1 / real h') 2,
                        py_round_nd (100 * min (real w' - 1) x2 / real w') 2,
                        py_round_nd (100 * min (real h' - 1) y2 / real h') 2]))
   \<and> (\<forall>x n. \<bar>py_round_nd x n - x\<bar> \<le> 1 / (2 * 10 ^ n)
             \<and> (\<exists>k. py_round_nd x n = real_of_int k / 10 ^ n))"
proof (intro conjI impI allI)
  assume "yolo_frame_boxes allowed w h results = Inr ds \<and> d \<in> set ds"
  then have "yolo_frame_boxes allowed w h results = Inr ds" "d \<in> set ds" by simp_all
  from yolo_emitted [OF this] obtain r rest bs b x1 y1 x2 y2 more cid cs where
    a: "results = r # rest" "r_boxes r = Some bs" "b \<in> set bs"
       "xyxy b = [x1, y1, x2, y2] # more" and
    mk: "make_box (label_name_of (r_names r) cid) cs w h (clamp_box w h (x1, y1, x2, y2))
           = Inr d"
    by blast
  from a make_box_fields(1,2,5,6) [OF mk]
  show "\<exists>r rest bs b x1 y1 x2 y2 more.
         results = r # rest \<and> r_boxes r = Some bs \<and> b \<in> set bs \<and>
         xyxy b = [x1, y1, x2, y2] # more \<and> 0 < w \<and> 0 < h \<and>
         bbox_px d = [py_int (max 0 x1), py_int (max 0 y1),
                      py_int (min (real w - 1) x2), py_int (min (real h - 1) y2)] \<and>
         bbox_pct d = [py_round_nd (100 * max 0 x1 / real w) 2,
                       py_round_nd (100 * max 0 y1 / real h) 2,
                       py_round_nd (100 * min (real w - 1) x2 / real w) 2,
                       py_round_nd (100 * min (real h - 1) y2 / real h) 2]"
    by blast
next
  assume "owl_frame_boxes prompts w' h' res = Inr ds' \<and> d' \<in> set ds'"
  then have "owl_frame_boxes prompts w' h' res = Inr ds'" "d' \<in> set ds'" by simp_all
  from owl_emitted [OF this] obtain x1 y1 x2 y2 score idx lbl where
    t: "([x1, y1, x2, y2], score, idx)
          \<in> set (zip (res_boxes res) (zip (res_scores res) (res_labels res)))" and
    mk: "make_box lbl (Some score) w' h' (clamp_box w' h' (x1, y1, x2, y2)) = Inr d'"
    by blast
  from t have "[x1, y1, x2, y2] \<in> set (res_boxes res)" by (rule set_zip_leftD)
  with make_box_fields(1,2,5,6) [OF mk]
  show "\<exists>x1 y1 x2 y2.
         [x1, y1, x2, y2] \<in> set (res_boxes res) \<and> 0 < w' \<and> 0 < h' \<and>
         bbox_px d' = [py_int (max 0 x1), py_int (max 0 y1),
                       py_int (min (real w' - 1) x2), py_int (min (real h' - 1) y2)] \<and>
         bbox_pct d' = [py_round_nd (100 * max 0 x1 / real w') 2,
                        py_round_nd (100 * max 0 y1 / real h') 2,
                        py_round_nd (100 * min (real w' - 1) x2 / real w') 2,
                        py_round_nd (100 * min (real h' - 1) y2 / real h') 2]"
    by blast
next
  fix x n
  show "\<bar>py_round_nd x n - x\<bar> \<le> 1 / (2 * 10 ^ n)" by (rule py_round_nd_close)
  show "\<exists>k. py_round_nd x n = real_of_int k / 10 ^ n" by (rule py_round_nd_grid)
qed

theorem bbox_pct_from_clamped_floats_witness:
  "yolo_frame_boxes ALLOWED_CLASSES 640 480
     [\<lparr>r_names = NamesDict [0 \<mapsto> ''person''],
       r_boxes = Some [\<lparr>xyxy = [[1 / 2, 2, 650, 400]], cls = Some [0], conf = None\<rparr>]\<rparr>]
   = Inr [\<lparr>label = ''person'', confidence = None,
           bbox_px = [0, 2, 639, 400],
           bbox_pct = [8 / 100, 42 / 100, 9984 / 100, 8333 / 100]\<rparr>]
   \<and> owl_frame_boxes [''katana''] 640 480
     \<lparr>res_boxes = [[1 / 2, 2, 650, 400]], res_scores = [1 / 2], res_labels = [0]\<rparr>
   = Inr [\<lparr>label = ''katana'', confidence = Some (1 / 2),
            bbox_px = [0, 2, 639, 400],
            bbox_pct = [8 / 100, 42 / 100, 9984 / 100, 8333 / 100]\<rparr>]
   \<and> [8 / 100, 42 / 100, 9984 / 100, 8333 / 100] =
       [py_round_nd (100 * max 0 (1 / 2) / real 640) 2,
        py_round_nd (100 * max 0 2 / real 480) 2,
        py_round_nd (100 * min (real 640 - 1) 650 / real 640) 2,
        py_round_nd (100 * min (real 480 - 1) 400 / real 480) 2]"
proof -
  let ?D = "\<lparr>label = ''person'', confidence = None,
           bbox_px = [0, 2, 639, 400],
           bbox_pct = [8 / 100, 42 / 100, 9984 / 100, 8333 / 100]\<rparr>"
  let ?E = "\<lparr>label = ''katana'', confidence = Some (1 / 2),
            bbox_px = [0, 2, 639, 400],
            bbox_pct = [8 / 100, 42 / 100, 9984 / 100, 8333 / 100]\<rparr>"
  let ?R = "[\<lparr>r_names = NamesDict [0 \<mapsto> ''person''],
       r_boxes = Some [\<lparr>xyxy = [[1 / 2, 2, 650, 400]], cls = Some [0], conf = None\<rparr>]\<rparr>]"
  let ?O = "\<lparr>res_boxes = [[1 / 2, 2, 650, 400]], res_scores = [1 / 2], res_labels = [0]\<rparr>"
  have y: "yolo_frame_boxes ALLOWED_CLASSES 640 480 ?R = Inr [?D]"
    by (simp add: eval_defs)
  have o: "owl_frame_boxes [''katana''] 640 480 ?O = Inr [?E]"
    by (simp add: eval_defs)
  from bbox_pct_from_clamped_floats
         [of ALLOWED_CLASSES 640 480 ?R "[?D]" ?D "[''katana'']" 640 480 ?O "[?E]" ?E] y o
  have "[8 / 100, 42 / 100, 9984 / 100, 8333 / 100] =
       [py_round_nd (100 * max 0 (1 / 2) / real 640) 2,
        py_round_nd (100 * max 0 2 / real 480) 2,
        py_round_nd (100 * min (real 640 - 1) 650 / real 640) 2,
        py_round_nd (100 * min (real 480 - 1) 400 / real 480) 2]"
    by (simp add: py_round_nd_def py_round_def)
  with y o show ?thesis by blast
qed

lemma py_int_of_Ints: "c \<in> \<int> \<Longrightarrow> of_int (py_int c) = c"
  by (auto simp: Ints_def)

lemma max_Ints: "(x::real) \<in> \<int> \<Longrightarrow> max 0 x \<in> \<int>"
  by (simp add: max_def)

lemma min_Ints: "(x::real) \<in> \<int> \<Longrightarrow> min (real n - 1) x \<in> \<int>"
  by (simp add: min_def)

lemma pct_near_px:
  fixes c :: real and n :: nat
  assumes "0 < n"
  shows "\<bar>py_round_nd (100 * c / real n) 2 - 100 * of_int (py_int c) / real n\<bar>
           < 100 / real n + 1 / 200"
proof -
  have "\<bar>py_round_nd (100 * c / real n) 2 - 100 * c / real n\<bar> \<le> 1 / 200"
    using py_round_nd_close [of "100 * c / real n" 2] by simp
  moreover have "\<bar>100 * c / real n - 100 * of_int (py_int c) / real n\<bar> < 100 / real n"
  proof -
    let ?d = "c - of_int (py_int c)"
    have "100 * c / real n - 100 * of_int (py_int c) / real n = 100 * ?d / real n"
      by (simp add: diff_divide_distrib right_diff_distrib)
    moreover have "\<bar>100 * c - 100 * q\<bar> = 100 * \<bar>c - q\<bar>" for q :: real
    proof -
      have "\<bar>100 * c - 100 * q\<bar> = \<bar>100 * (c - q)\<bar>"
        by (simp only: right_diff_distrib)
      also have "\<dots> = \<bar>100\<bar> * \<bar>c - q\<bar>" by (rule abs_mult)
      finally show ?thesis by simp
    qed
    ultimately have "\<bar>100 * c / real n - 100 * of_int (py_int c) / real n\<bar>
                 = 100 * \<bar>?d\<bar> / real n"
      using assms by simp
    also have "\<dots> < 100 * 1 / real n"
      using assms py_int_close [of c] by (intro divide_strict_right_mono) auto
    finally show ?thesis by simp
  qed
  ultimately show ?thesis by linarith
qed

lemma coord_pct:
  fixes c :: real and n :: nat
  assumes "0 < n"
  shows "\<bar>py_round_nd (100 * c / real n) 2 - 100 * of_int (py_int c) / real n\<bar>
           < 100 / real n + 1 / 200 \<and>
         (c \<in> \<int> \<longrightarrow>
           py_round_nd (100 * c / real n) 2 = py_round_nd (100 * of_int (py_int c) / real n) 2)"
proof (intro conjI impI)
  show "\<bar>py_round_nd (100 * c / real n) 2 - 100 * of_int (py_int c) / real n\<bar>
           < 100 / real n + 1 / 200"
    by (rule pct_near_px [OF assms])
next
  assume "c \<in> \<int>"
  then have "real_of_int (py_int c) = c" by (rule py_int_of_Ints)
  then show "py_round_nd (100 * c / real n) 2
               = py_round_nd (100 * of_int (py_int c) / real n) 2"
    by (simp only:)
qed

lemma make_box_pct_vs_px_linked:
  assumes mk: "make_box l cf w h (clamp_box w h (x1, y1, x2, y2)) = Inr d"
  shows "\<exists>c1 e1 c2 e2 p1 q1 p2 q2 r1 s1 r2 s2.
           c1 = max 0 x1 \<and> e1 = max 0 y1 \<and>
           c2 = min (real w - 1) x2 \<and> e2 = min (real h - 1) y2 \<and>
           p1 = py_int c1 \<and> q1 = py_int e1 \<and> p2 = py_int c2 \<and> q2 = py_int e2 \<and>
           r1 = py_round_nd (100 * c1 / real w) 2 \<and> s1 = py_round_nd (100 * e1 / real h) 2 \<and>
           r2 = py_round_nd (100 * c2 / real w) 2 \<and> s2 = py_round_nd (100 * e2 / real h) 2 \<and>
           bbox_px d = [p1, q1, p2, q2] \<and> bbox_pct d = [r1, s1, r2, s2] \<and> 0 < w \<and> 0 < h \<and>
           \<bar>r1 - 100 * of_int p1 / real w\<bar> < 100 / real w + 1 / 200 \<and>
           \<bar>s1 - 100 * of_int q1 / real h\<bar> < 100 / real h + 1 / 200 \<and>
           \<bar>r2 - 100 * of_int p2 / real w\<bar> < 100 / real w + 1 / 200 \<and>
           \<bar>s2 - 100 * of_int q2 / real h\<bar> < 100 / real h + 1 / 200 \<and>
           (x1 \<in> \<int> \<longrightarrow> r1 = py_round_nd (100 * of_int p1 / real w) 2) \<and>
           (y1 \<in> \<int> \<longrightarrow> s1 = py_round_nd (100 * of_int q1 / real h) 2) \<and>
           (x2 \<in> \<int> \<longrightarrow> r2 = py_round_nd (100 * of_int p2 / real w) 2) \<and>
           (y2 \<in> \<int> \<longrightarrow> s2 = py_round_nd (100 * of_int q2 / real h) 2)"
proof -
  note f = make_box_fields [OF mk]
  note a = coord_pct [OF f(1), of "max 0 x1"]
  note b = coord_pct [OF f(2), of "max 0 y1"]
  note c = coord_pct [OF f(1), of "min (real w - 1) x2"]
  note e = coord_pct [OF f(2), of "min (real h - 1) y2"]
  show ?thesis
    apply (intro exI conjI impI)
                           apply (rule refl)
                          apply (rule refl)
                         apply (rule refl)
                        apply (rule refl)
                       apply (rule refl)
                      apply (rule refl)
                     apply (rule refl)
                    apply (rule refl)
                   apply (rule refl)
                  apply (rule refl)
                 apply (rule refl)
                apply (rule refl)
               apply (rule f(5))
              apply (rule f(6))
             apply (rule f(1))
            apply (rule f(2))
           apply (rule a [THEN conjunct1])
          apply (rule b [THEN conjunct1])
         apply (rule c [THEN conjunct1])
        apply (rule e [THEN conjunct1])
       apply (rule a [THEN conjunct2, rule_format], erule max_Ints)
      apply (rule b [THEN conjunct2, rule_format], erule max_Ints)
     apply (rule c [THEN conjunct2, rule_format], erule min_Ints)
    apply (rule e [THEN conjunct2, rule_format], erule min_Ints)
    done
qed


text \<open>
  Claim C5, as amended. Every emitted detection \<open>d\<close> is the record that the script
  builds from one raw box of the detector's output, and its \<^verbatim>\<open>bbox_pct\<close> is not
  computed from the stored \<^verbatim>\<open>bbox_px\<close> integers but from the clamped coordinates
  \<open>c\<close> of that box before truncation: \<^verbatim>\<open>bbox_pct[k]\<close> is
  \<open>round (100 * c / dimension, 2)\<close> and \<^verbatim>\<open>bbox_px[k]\<close> is the truncation of \<open>c\<close>. It
  agrees with the direct conversion \<open>round (100 * bbox_px[k] / dimension, 2)\<close> whenever
  the raw coordinate of that box is a whole number, and in general it differs from
  \<open>100 * bbox_px[k] / dimension\<close> by less than \<open>100 / dimension + 0.005\<close>. Both backends.
\<close>

theorem bbox_pct_near_bbox_px:
  "(yolo_frame_boxes allowed w h results = Inr ds \<and> d \<in> set ds \<longrightarrow>
      (\<exists>r rest bs b x1 y1 x2 y2 more cid cs c1 e1 c2 e2 p1 q1 p2 q2 r1 s1 r2 s2.
         results = r # rest \<and> r_boxes r = Some bs \<and> b \<in> set bs \<and>
         xyxy b = [x1, y1, x2, y2] # more \<and>
         cls_id_of (cls b) = Inr cid \<and> conf_score_of (conf b) = Inr cs \<and>
         make_box (label_name_of (r_names r) cid) cs w h (clamp_box w h (x1, y1, x2, y2))
           = Inr d \<and>
         c1 = max 0 x1 \<and> e1 = max 0 y1 \<and>
         c2 = min (real w - 1) x2 \<and> e2 = min (real h - 1) y2 \<and>
         p1 = py_int c1 \<and> q1 = py_int e1 \<and> p2 = py_int c2 \<and> q2 = py_int e2 \<and>
         r1 = py_round_nd (100 * c1 / real w) 2 \<and> s1 = py_round_nd (100 * e1 / real h) 2 \<and>
         r2 = py_round_nd (100 * c2 / real w) 2 \<and> s2 = py_round_nd (100 * e2 / real h) 2 \<and>
         bbox_px d = [p1, q1, p2, q2] \<and> bbox_pct d = [r1, s1, r2, s2] \<and> 0 < w \<and> 0 < h \<and>
         \<bar>r1 - 100 * of_int p1 / real w\<bar> < 100 / real w + 1 / 200 \<and>
         \<bar>s1 - 100 * of_int q1 / real h\<bar> < 100 / real h + 1 / 200 \<and>
         \<bar>r2 - 100 * of_int p2 / real w\<bar> < 100 / real w + 1 / 200 \<and>
         \<bar>s2 - 100 * of_int q2 / real h\<bar> < 100 / real h + 1 / 200 \<and>
         (x1 \<in> \<int> \<longrightarrow> r1 = py_round_nd (100 * of_int p1 / real w) 2) \<and>
         (y1 \<in> \<int> \<longrightarrow> s1 = py_round_nd (100 * of_int q1 / real h) 2) \<and>
         (x2 \<in> \<int> \<longrightarrow> r2 = py_round_nd (100 * of_int p2 / real w) 2) \<and>
         (y2 \<in> \<int> \<longrightarrow> s2 = py_round_nd (100 * of_int q2 / real h) 2)))
   \<and> (owl_frame_boxes prompts w' h' res = Inr ds' \<and> d' \<in> set ds' \<longrightarrow>
      (\<exists>x1 y1 x2 y2 score idx lbl c1 e1 c2 e2 p1 q1 p2 q2 r1 s1 r2 s2.
         ([x1, y1, x2, y2], score, idx)
           \<in> set (zip (res_boxes res) (zip (res_scores res) (res_labels res))) \<and>
         py_index prompts idx = Inr lbl \<and>
         make_box lbl (Some score) w' h' (clamp_box w' h' (x1, y1, x2, y2)) = Inr d' \<and>
         c1 = max 0 x1 \<and> e1 = max 0 y1 \<and>
         c2 = min (real w' - 1) x2 \<and> e2 = min (real h' - 1) y2 \<and>
         p1 = py_int c1 \<and> q1 = py_int e1 \<and> p2 = py_int c2 \<and> q2 = py_int e2 \<and>
         r1 = py_round_nd (100 * c1 / real w') 2 \<and> s1 = py_round_nd (100 * e1 / real h') 2 \<and>
         r2 = py_round_nd (100 * c2 / real w') 2 \<and> s2 = py_round_nd (100 * e2 / real h') 2 \<and>
         bbox_px d' = [p1, q1, p2, q2] \<and> bbox_pct d' = [r1, s1, r2, s2] \<and> 0 < w' \<and> 0 < h' \<and>
         \<bar>r1 - 100 * of_int p1 / real w'\<bar> < 100 / real w' + 1 / 200 \<and>
         \<bar>s1 - 100 * of_int q1 / real h'\<bar> < 100 / real h' + 1 / 200 \<and>
         \<bar>r2 - 100 * of_int p2 / real w'\<bar> < 100 / real w' + 1 / 200 \<and>
         \<bar>s2 - 100 * of_int q2 / real h'\<bar> < 100 / real h' + 1 / 200 \<and>
         (x1 \<in> \<int> \<longrightarrow> r1 = py_round_nd (100 * of_int p1 / real w') 2) \<and>
         (y1 \<in> \<int> \<longrightarrow> s1 = py_round_nd (100 * of_int q1 / real h') 2) \<and>
         (x2 \<in> \<int> \<longrightarrow> r2 = py_round_nd (100 * of_int p2 / real w') 2) \<and>
         (y2 \<in> \<int> \<longrightarrow> s2 = py_round_nd (100 * of_int q2 / real h') 2)))"
proof (intro conjI impI)
  assume "yolo_frame_boxes allowed w h results = Inr ds \<and> d \<in> set ds"
  then have "yolo_frame_boxes allowed w h results = Inr ds" "d \<in> set ds" by simp_all
  from yolo_emitted [OF this] obtain r rest bs b x1 y1 x2 y2 more cid cs where
    a: "results = r # rest" "r_boxes r = Some bs" "b \<in> set bs"
       "xyxy b = [x1, y1, x2, y2] # more"
       "cls_id_of (cls b) = Inr cid" "conf_score_of (conf b) = Inr cs" and
    mk: "make_box (label_name_of (r_names r) cid) cs w h (clamp_box w h (x1, y1, x2, y2))
           = Inr d"
    by blast
  from make_box_pct_vs_px_linked [OF mk] a mk
  show "\<exists>r rest bs b x1 y1 x2 y2 more cid cs c1 e1 c2 e2 p1 q1 p2 q2 r1 s1 r2 s2.
         results = r # rest \<and> r_boxes r = Some bs \<and> b \<in> set bs \<and>
         xyxy b = [x1, y1, x2, y2] # more \<and>
         cls_id_of (cls b) = Inr cid \<and> conf_score_of (conf b) = Inr cs \<and>
         make_box (label_name_of (r_names r) cid) cs w h (clamp_box w h (x1, y1, x2, y2))
           = Inr d \<and>
         c1 = max 0 x1 \<and> e1 = max 0 y1 \<and>
         c2 = min (real w - 1) x2 \<and> e2 = min (real h - 1) y2 \<and>
         p1 = py_int c1 \<and> q1 = py_int e1 \<and> p2 = py_int c2 \<and> q2 = py_int e2 \<and>
         r1 = py_round_nd (100 * c1 / real w) 2 \<and> s1 = py_round_nd (100 * e1 / real h) 2 \<and>
         r2 = py_round_nd (100 * c2 / real w) 2 \<and> s2 = py_round_nd (100 * e2 / real h) 2 \<and>
         bbox_px d = [p1, q1, p2, q2] \<and> bbox_pct d = [r1, s1, r2, s2] \<and> 0 < w \<and> 0 < h \<and>
         \<bar>r1 - 100 * of_int p1 / real w\<bar> < 100 / real w + 1 / 200 \<and>
         \<bar>s1 - 100 * of_int q1 / real h\<bar> < 100 / real h + 1 / 200 \<and>
         \<bar>r2 - 100 * of_int p2 / real w\<bar> < 100 / real w + 1 / 200 \<and>
         \<bar>s2 - 100 * of_int q2 / real h\<bar> < 100 / real h + 1 / 200 \<and>
         (x1 \<in> \<int> \<longrightarrow> r1 = py_round_nd (100 * of_int p1 / real w) 2) \<and>
         (y1 \<in> \<int> \<longrightarrow> s1 = py_round_nd (100 * of_int q1 / real h) 2) \<and>
         (x2 \<in> \<int> \<longrightarrow> r2 = py_round_nd (100 * of_int p2 / real w) 2) \<and>
         (y2 \<in> \<int> \<longrightarrow> s2 = py_round_nd (100 * of_int q2 / real h) 2)"
    by (elim exE conjE) (intro exI conjI; assumption)
next
  assume "owl_frame_boxes prompts w' h' res = Inr ds' \<and> d' \<in> set ds'"
  then have "owl_frame_boxes prompts w' h' res = Inr ds'" "d' \<in> set ds'" by simp_all
  from owl_emitted [OF this] obtain x1 y1 x2 y2 score idx lbl where
    t: "([x1, y1, x2, y2], score, idx)
          \<in> set (zip (res_boxes res) (zip (res_scores res) (res_labels res)))"
       "py_index prompts idx = Inr lbl" and
    mk: "make_box lbl (Some score) w' h' (clamp_box w' h' (x1, y1, x2, y2)) = Inr d'"
    by blast
  from make_box_pct_vs_px_linked [OF mk] t mk
  show "\<exists>x1 y1 x2 y2 score idx lbl c1 e1 c2 e2 p1 q1 p2 q2 r1 s1 r2 s2.
         ([x1, y1, x2, y2], score, idx)
           \<in> set (zip (res_boxes res) (zip (res_scores res) (res_labels res))) \<and>
         py_index prompts idx = Inr lbl \<and>
         make_box lbl (Some score) w' h' (clamp_box w' h' (x1, y1, x2, y2)) = Inr d' \<and>
         c1 = max 0 x1 \<and> e1 = max 0 y1 \<and>
         c2 = min (real w' - 1) x2 \<and> e2 = min (real h' - 1) y2 \<and>
         p1 = py_int c1 \<and> q1 = py_int e1 \<and> p2 = py_int c2 \<and> q2 = py_int e2 \<and>
         r1 = py_round_nd (100 * c1 / real w') 2 \<and> s1 = py_round_nd (100 * e1 / real h') 2 \<and>
         r2 = py_round_nd (100 * c2 / real w') 2 \<and> s2 = py_round_nd (100 * e2 / real h') 2 \<and>
         bbox_px d' = [p1, q1, p2, q2] \<and> bbox_pct d' = [r1, s1, r2, s2] \<and> 0 < w' \<and> 0 < h' \<and>
         \<bar>r1 - 100 * of_int p1 / real w'\<bar> < 100 / real w' + 1 / 200 \<and>
         \<bar>s1 - 100 * of_int q1 / real h'\<bar> < 100 / real h' + 1 / 200 \<and>
         \<bar>r2 - 100 * of_int p2 / real w'\<bar> < 100 / real w' + 1 / 200 \<and>
         \<bar>s2 - 100 * of_int q2 / real h'\<bar> < 100 / real h' + 1 / 200 \<and>
         (x1 \<in> \<int> \<longrightarrow> r1 = py_round_nd (100 * of_int p1 / real w') 2) \<and>
         (y1 \<in> \<int> \<longrightarrow> s1 = py_round_nd (100 * of_int q1 / real h') 2) \<and>
         (x2 \<in> \<int> \<longrightarrow> r2 = py_round_nd (100 * of_int p2 / real w') 2) \<and>
         (y2 \<in> \<int> \<longrightarrow> s2 = py_round_nd (100 * of_int q2 / real h') 2)"
    by (elim exE conjE) (intro exI conjI; assumption)
qed


text \<open>
  The direct conversion fails on a fractional coordinate: \<open>x1 = 0.5\<close> on a frame
  640 wide is stored as pixel 0 and as 0.08 percent, while pixel 0 converts to 0
  percent.
\<close>

theorem bbox_pct_not_from_bbox_px_counterexample:
  "owl_frame_boxes [''katana''] 640 480
     \<lparr>res_boxes = [[1 / 2, 2, 650, 400]], res_scores = [1 / 2], res_labels = [0]\<rparr>
   = Inr [\<lparr>label = ''katana'', confidence = Some (1 / 2),
            bbox_px = [0, 2, 639, 400],
            bbox_pct = [8 / 100, 42 / 100, 9984 / 100, 8333 / 100]\<rparr>]
   \<and> py_round_nd (100 * real_of_int 0 / real 640) 2 = 0
   \<and> (8 / 100 :: real) \<noteq> 0"
  by (simp add: eval_defs)



theorem bbox_pct_near_bbox_px_witness:
  "yolo_frame_boxes ALLOWED_CLASSES 640 480
     [\<lparr>r_names = NamesDict [0 \<mapsto> ''person''],
       r_boxes = Some [\<lparr>xyxy = [[- 5, 2, 650, 400]], cls = Some [0], conf = None\<rparr>]\<rparr>]
   = Inr [\<lparr>label = ''person'', confidence = None,
           bbox_px = [0, 2, 639, 400],
           bbox_pct = [0, 42 / 100, 9984 / 100, 8333 / 100]\<rparr>]
   \<and> owl_frame_boxes [''katana''] 640 480
     \<lparr>res_boxes = [[- 5, 2, 650, 400]], res_scores = [1 / 2], res_labels = [0]\<rparr>
   = Inr [\<lparr>label = ''katana'', confidence = Some (1 / 2),
            bbox_px = [0, 2, 639, 400],
            bbox_pct = [0, 42 / 100, 9984 / 100, 8333 / 100]\<rparr>]
   \<and> (- 5 :: real) \<in> \<int> \<and> (2 :: real) \<in> \<int> \<and> (650 :: real) \<in> \<int> \<and> (400 :: real) \<in> \<int>
   \<and> [0, 42 / 100, 9984 / 100, 8333 / 100] =
       [py_round_nd (100 * real_of_int 0 / real 640) 2,
        py_round_nd (100 * real_of_int 2 / real 480) 2,
        py_round_nd (100 * real_of_int 639 / real 640) 2,
        py_round_nd (100 * real_of_int 400 / real 480) 2]"
proof -
  let ?D = "\<lparr>label = ''person'', confidence = None,
           bbox_px = [0, 2, 639, 400],
           bbox_pct = [0, 42 / 100, 9984 / 100, 8333 / 100]\<rparr>"
  let ?E = "\<lparr>label = ''katana'', confidence = Some (1 / 2),
            bbox_px = [0, 2, 639, 400],
            bbox_pct = [0, 42 / 100, 9984 / 100, 8333 / 100]\<rparr>"
  let ?R = "[\<lparr>r_names = NamesDict [0 \<mapsto> ''person''],
       r_boxes = Some [\<lparr>xyxy = [[- 5, 2, 650, 400]], cls = Some [0], conf = None\<rparr>]\<rparr>]"
  let ?O = "\<lparr>res_boxes = [[- 5, 2, 650, 400]], res_scores = [1 / 2], res_labels = [0]\<rparr>"
  have y: "yolo_frame_boxes ALLOWED_CLASSES 640 480 ?R = Inr [?D]"
    by (simp add: eval_defs)
  have o: "owl_frame_boxes [''katana''] 640 480 ?O = Inr [?E]"
    by (simp add: eval_defs)
  have i: "(- 5 :: real) \<in> \<int> \<and> (2 :: real) \<in> \<int> \<and> (650 :: real) \<in> \<int> \<and> (400 :: real) \<in> \<int>"
    by simp
  note T = bbox_pct_near_bbox_px [where allowed = ALLOWED_CLASSES and w = 640 and h = 480
      and results = ?R and ds = "[?D]" and d = ?D and prompts = "[''katana'']" and w' = 640
      and h' = 480 and res = ?O and ds' = "[?E]" and d' = ?E]
  have hy: "yolo_frame_boxes ALLOWED_CLASSES 640 480 ?R = Inr [?D] \<and> ?D \<in> set [?D]"
    using y by simp
  have ho: "owl_frame_boxes [''katana''] 640 480 ?O = Inr [?E] \<and> ?E \<in> set [?E]"
    using o by simp
  from T [THEN conjunct1, THEN mp, OF hy] T [THEN conjunct2, THEN mp, OF ho] i
  have "[0, 42 / 100, 9984 / 100, 8333 / 100] =
       [py_round_nd (100 * real_of_int 0 / real 640) 2,
        py_round_nd (100 * real_of_int 2 / real 480) 2,
        py_round_nd (100 * real_of_int 639 / real 640) 2,
        py_round_nd (100 * real_of_int 400 / real 480) 2]"
    by (simp add: py_round_nd_def py_round_def)
  with y o i show ?thesis by blast
qed

section \<open>Labels and confidence\<close>

lemma yolo_box_step_label:
  assumes "yolo_box_step allowed nm w h b = Inr x"
  shows "\<exists>cid. cls_id_of (cls b) = Inr cid \<and>
           (case x of
              None \<Rightarrow> allowed \<noteq> {} \<and> label_name_of nm cid \<notin> allowed
            | Some d \<Rightarrow> (allowed = {} \<or> label_name_of nm cid \<in> allowed) \<and>
                        label d = label_name_of nm cid)"
  using assms
  by (auto simp: yolo_box_step_def Let_def make_box_def clamp_box_def
           split: sum.splits if_splits prod.splits)

lemma yolo_boxes_loop_labels:
  "yolo_boxes_loop allowed nm w h bs acc = Inr ds \<Longrightarrow>
     map label ds = map label acc @
       filter (\<lambda>l. allowed = {} \<or> l \<in> allowed)
         (map (\<lambda>b. label_name_of nm (projr (cls_id_of (cls b)))) bs)"
proof (induction bs arbitrary: acc)
  case Nil
  then show ?case by simp
next
  case (Cons b bs)
  from Cons.prems obtain x where x: "yolo_box_step allowed nm w h b = Inr x"
    by (auto split: sum.splits)
  from yolo_box_step_label [OF x] obtain cid where cid: "cls_id_of (cls b) = Inr cid"
    and cs: "case x of
              None \<Rightarrow> allowed \<noteq> {} \<and> label_name_of nm cid \<notin> allowed
            | Some d \<Rightarrow> (allowed = {} \<or> label_name_of nm cid \<in> allowed) \<and>
                        label d = label_name_of nm cid"
    by blast
  show ?case
  proof (cases x)
    case None
    with Cons.prems x have "yolo_boxes_loop allowed nm w h bs acc = Inr ds" by simp
    from Cons.IH [OF this] None cs cid show ?thesis by simp
  next
    case (Some d)
    with Cons.prems x have "yolo_boxes_loop allowed nm w h bs (acc @ [d]) = Inr ds" by simp
    from Cons.IH [OF this] Some cs cid show ?thesis by auto
  qed
qed

lemma owl_box_step_label:
  assumes "owl_box_step prompts w h (box, score, idx) = Inr d"
  shows "py_index prompts idx = Inr (label d)"
  using assms
  by (auto simp: owl_box_step_def make_box_def clamp_box_def
           split: sum.splits if_splits prod.splits)

lemma owl_boxes_loop_labels:
  "owl_boxes_loop prompts w h ts acc = Inr ds \<Longrightarrow>
     map (\<lambda>d. Inr (label d)) ds =
       map (\<lambda>d. Inr (label d)) acc @ map (\<lambda>(box, score, idx). py_index prompts idx) ts"
proof (induction ts arbitrary: acc)
  case Nil
  then show ?case by simp
next
  case (Cons t ts)
  obtain box score idx where t: "t = (box, score, idx)" by (cases t) auto
  from Cons.prems obtain d where d: "owl_box_step prompts w h t = Inr d"
    and rest: "owl_boxes_loop prompts w h ts (acc @ [d]) = Inr ds"
    by (auto split: sum.splits)
  from d t have "py_index prompts idx = Inr (label d)" by (simp add: owl_box_step_label)
  with Cons.IH [OF rest] t show ?case by simp
qed

text \<open>
  Claim C6. Label filtering is exact. In the closed-vocabulary backend the labels of
  the emitted detections are, in order, the resolved labels of the raw detections that
  the allow-list admits, nothing more and nothing less; with the module's allow-list
  \<open>{person}\<close> a detection that resolves to \<open>car\<close>, or to any other label, never appears;
  with an empty allow-list every resolved label passes. The open-vocabulary backend
  has no filter: it emits one detection per raw detection, labelled with the prompt
  that the raw label index selects.
\<close>

theorem label_filter_exact:
  "(yolo_frame_boxes allowed w h (r # rest) = Inr ds \<and> r_boxes r = Some bs \<longrightarrow>
      map label ds =
        filter (\<lambda>l. allowed = {} \<or> l \<in> allowed)
          (map (\<lambda>b. label_name_of (r_names r) (projr (cls_id_of (cls b)))) bs))
   \<and> (yolo_frame_boxes {} w h (r # rest) = Inr ds_all \<and> r_boxes r = Some bs \<longrightarrow>
      map label ds_all = map (\<lambda>b. label_name_of (r_names r) (projr (cls_id_of (cls b)))) bs)
   \<and> (yolo_frame_boxes ALLOWED_CLASSES w h results = Inr ds_person \<longrightarrow>
      ''car'' \<notin> label ` set ds_person \<and> label ` set ds_person \<subseteq> {''person''})
   \<and> (owl_frame_boxes prompts w' h' res = Inr ds' \<longrightarrow>
      length ds' = length (zip (res_boxes res) (zip (res_scores res) (res_labels res))) \<and>
      map (\<lambda>d. Inr (label d)) ds' =
        map (\<lambda>(box, score, idx). py_index prompts idx)
          (zip (res_boxes res) (zip (res_scores res) (res_labels res))))"
proof (intro conjI impI)
  assume "yolo_frame_boxes allowed w h (r # rest) = Inr ds \<and> r_boxes r = Some bs"
  then have "yolo_boxes_loop allowed (r_names r) w h bs [] = Inr ds"
    by (auto simp: yolo_frame_boxes_def)
  from yolo_boxes_loop_labels [OF this]
  show "map label ds =
        filter (\<lambda>l. allowed = {} \<or> l \<in> allowed)
          (map (\<lambda>b. label_name_of (r_names r) (projr (cls_id_of (cls b)))) bs)"
    by simp
next
  assume "yolo_frame_boxes {} w h (r # rest) = Inr ds_all \<and> r_boxes r = Some bs"
  then have "yolo_boxes_loop {} (r_names r) w h bs [] = Inr ds_all"
    by (auto simp: yolo_frame_boxes_def)
  from yolo_boxes_loop_labels [OF this]
  show "map label ds_all = map (\<lambda>b. label_name_of (r_names r) (projr (cls_id_of (cls b)))) bs"
    by simp
next
  assume a: "yolo_frame_boxes ALLOWED_CLASSES w h results = Inr ds_person"
  have "label d = ''person''" if "d \<in> set ds_person" for d
  proof -
    from yolo_emitted [OF a that] obtain l cs x1 y1 x2 y2 where
      "ALLOWED_CLASSES = {} \<or> l \<in> ALLOWED_CLASSES"
      "make_box l cs w h (clamp_box w h (x1, y1, x2, y2)) = Inr d"
      by blast
    with make_box_fields(3) [of l cs w h x1 y1 x2 y2 d] show ?thesis
      by (simp add: ALLOWED_CLASSES_def)
  qed
  then show "''car'' \<notin> label ` set ds_person" by auto
  from \<open>\<And>d. d \<in> set ds_person \<Longrightarrow> label d = ''person''\<close>
  show "label ` set ds_person \<subseteq> {''person''}" by auto
next
  assume "owl_frame_boxes prompts w' h' res = Inr ds'"
  then have l: "owl_boxes_loop prompts w' h'
                 (zip (res_boxes res) (zip (res_scores res) (res_labels res))) [] = Inr ds'"
    by (simp add: owl_frame_boxes_def)
  from owl_boxes_loop_labels [OF l]
  show m: "map (\<lambda>d. Inr (label d)) ds' =
        map (\<lambda>(box, score, idx). py_index prompts idx)
          (zip (res_boxes res) (zip (res_scores res) (res_labels res)))"
    by simp
  from arg_cong [OF m, of length]
  show "length ds' = length (zip (res_boxes res) (zip (res_scores res) (res_labels res)))"
    by simp
qed


theorem label_filter_exact_witness:
  "yolo_frame_boxes ALLOWED_CLASSES 640 480
     [\<lparr>r_names = NamesDict [0 \<mapsto> ''person'', 2 \<mapsto> ''car''],
       r_boxes = Some [\<lparr>xyxy = [[10, 20, 30, 40]], cls = Some [2], conf = Some [9 / 10]\<rparr>,
                       \<lparr>xyxy = [[- 5, 2, 650, 400]], cls = Some [0], conf = None\<rparr>]\<rparr>]
   = Inr [\<lparr>label = ''person'', confidence = None,
           bbox_px = [0, 2, 639, 400],
           bbox_pct = [0, 42 / 100, 9984 / 100, 8333 / 100]\<rparr>]
   \<and> yolo_frame_boxes {} 640 480
     [\<lparr>r_names = NamesDict [0 \<mapsto> ''person'', 2 \<mapsto> ''car''],
       r_boxes = Some [\<lparr>xyxy = [[10, 20, 30, 40]], cls = Some [2], conf = Some [9 / 10]\<rparr>,
                       \<lparr>xyxy = [[- 5, 2, 650, 400]], cls = Some [0], conf = None\<rparr>]\<rparr>]
   = Inr [\<lparr>label = ''car'', confidence = Some (9 / 10),
           bbox_px = [10, 20, 30, 40],
           bbox_pct = [156 / 100, 417 / 100, 469 / 100, 833 / 100]\<rparr>,
          \<lparr>label = ''person'', confidence = None,
           bbox_px = [0, 2, 639, 400],
           bbox_pct = [0, 42 / 100, 9984 / 100, 8333 / 100]\<rparr>]
   \<and> owl_frame_boxes [''katana'', ''sword''] 640 480
     \<lparr>res_boxes = [[10, 20, 30, 40], [- 5, 2, 650, 400]], res_scores = [9 / 10, 1 / 2],
      res_labels = [1, 0]\<rparr>
   = Inr [\<lparr>label = ''sword'', confidence = Some (9 / 10),
           bbox_px = [10, 20, 30, 40],
           bbox_pct = [156 / 100, 417 / 100, 469 / 100, 833 / 100]\<rparr>,
          \<lparr>label = ''katana'', confidence = Some (1 / 2),
           bbox_px = [0, 2, 639, 400],
           bbox_pct = [0, 42 / 100, 9984 / 100, 8333 / 100]\<rparr>]
   \<and> ''car'' \<notin> {''person''}"
proof -
  let ?P = "\<lparr>label = ''person'', confidence = None,
           bbox_px = [0, 2, 639, 400],
           bbox_pct = [0, 42 / 100, 9984 / 100, 8333 / 100]\<rparr>"
  let ?C = "\<lparr>label = ''car'', confidence = Some (9 / 10),
           bbox_px = [10, 20, 30, 40],
           bbox_pct = [156 / 100, 417 / 100, 469 / 100, 833 / 100]\<rparr>"
  let ?S = "\<lparr>label = ''sword'', confidence = Some (9 / 10),
           bbox_px = [10, 20, 30, 40],
           bbox_pct = [156 / 100, 417 / 100, 469 / 100, 833 / 100]\<rparr>"
  let ?K = "\<lparr>label = ''katana'', confidence = Some (1 / 2),
           bbox_px = [0, 2, 639, 400],
           bbox_pct = [0, 42 / 100, 9984 / 100, 8333 / 100]\<rparr>"
  let ?bs = "[\<lparr>xyxy = [[10, 20, 30, 40]], cls = Some [2], conf = Some [9 / 10]\<rparr>,
              \<lparr>xyxy = [[- 5, 2, 650, 400]], cls = Some [0], conf = None\<rparr>]"
  let ?r = "\<lparr>r_names = NamesDict [0 \<mapsto> ''person'', 2 \<mapsto> ''car''], r_boxes = Some ?bs\<rparr>"
  let ?O = "\<lparr>res_boxes = [[10, 20, 30, 40], [- 5, 2, 650, 400]], res_scores = [9 / 10, 1 / 2],
      res_labels = [1, 0]\<rparr>"
  have y: "yolo_frame_boxes ALLOWED_CLASSES 640 480 [?r] = Inr [?P]"
    by (simp add: eval_defs)
  have y0: "yolo_frame_boxes {} 640 480 [?r] = Inr [?C, ?P]"
    by (simp add: eval_defs)
  have o: "owl_frame_boxes [''katana'', ''sword''] 640 480 ?O = Inr [?S, ?K]"
    by (simp add: eval_defs)
  from label_filter_exact [where allowed = ALLOWED_CLASSES and w = 640 and h = 480 and r = ?r
      and rest = "[]" and ds = "[?P]" and bs = ?bs and ds_all = "[?C, ?P]" and results = "[?r]"
      and ds_person = "[?P]" and prompts = "[''katana'', ''sword'']" and w' = 640 and h' = 480
      and res = ?O and ds' = "[?S, ?K]"] y y0 o
  have "''car'' \<notin> {''person''}" by simp
  with y y0 o show ?thesis by blast
qed

lemma conf_score_of_cases:
  assumes "conf_score_of c = Inr cs"
  shows "(c = None \<and> cs = None) \<or> (\<exists>v more. c = Some (v # more) \<and> cs = Some v)"
  using assms
  by (cases c; cases "the c")
     (auto simp: conf_score_of_def py_index_def split: sum.splits if_splits)

lemma yolo_box_step_conf_absent:
  assumes "yolo_box_step allowed nm w h (b\<lparr>conf := c\<rparr>) = Inr x"
  shows "yolo_box_step allowed nm w h (b\<lparr>conf := None\<rparr>)
           = Inr (map_option (\<lambda>d. d\<lparr>confidence := None\<rparr>) x)"
  using assms
  by (auto simp: yolo_box_step_def Let_def conf_score_of_def make_box_def clamp_box_def
           split: sum.splits if_splits prod.splits option.splits)

text \<open>
  Claim C7. A confidence that is present is emitted rounded to three decimals (a
  multiple of 0.001 at distance at most 0.0005), in both backends. In the
  closed-vocabulary backend an absent confidence (\<^verbatim>\<open>b.conf is None\<close>) is emitted as
  \<^verbatim>\<open>None\<close>, not as zero, and it does not make the normaliser fail: whenever a raw
  detection is processed without an exception with some confidence, it is processed
  without an exception with the confidence absent, to the same outcome with
  \<^verbatim>\<open>confidence\<close> \<^verbatim>\<open>None\<close>. The open-vocabulary backend always has a score.
\<close>

theorem confidence_rounded_or_absent:
  "(yolo_frame_boxes allowed w h results = Inr ds \<and> d \<in> set ds \<longrightarrow>
      (\<exists>r rest bs b. results = r # rest \<and> r_boxes r = Some bs \<and> b \<in> set bs \<and>
         ((conf b = None \<and> confidence d = None) \<or>
          (\<exists>v more. conf b = Some (v # more) \<and> confidence d = Some (py_round_nd v 3)))))
   \<and> (yolo_box_step allowed nm w h (bx\<lparr>conf := c\<rparr>) = Inr x \<longrightarrow>
        yolo_box_step allowed nm w h (bx\<lparr>conf := None\<rparr>)
          = Inr (map_option (\<lambda>d. d\<lparr>confidence := None\<rparr>) x))
   \<and> (owl_frame_boxes prompts w' h' res = Inr ds' \<and> d' \<in> set ds' \<longrightarrow>
      (\<exists>box score idx.
         (box, score, idx) \<in> set (zip (res_boxes res) (zip (res_scores res) (res_labels res)))
         \<and> confidence d' = Some (py_round_nd score 3)))
   \<and> (\<forall>v. \<bar>py_round_nd v 3 - v\<bar> \<le> 1 / 2000
           \<and> (\<exists>k. py_round_nd v 3 = real_of_int k / 1000))"
proof (intro conjI impI allI)
  assume "yolo_frame_boxes allowed w h results = Inr ds \<and> d \<in> set ds"
  then have "yolo_frame_boxes allowed w h results = Inr ds" "d \<in> set ds" by simp_all
  from yolo_emitted [OF this] obtain r rest bs b x1 y1 x2 y2 cid cs where
    a: "results = r # rest" "r_boxes r = Some bs" "b \<in> set bs" and
    cs: "conf_score_of (conf b) = Inr cs" and
    mk: "make_box (label_name_of (r_names r) cid) cs w h (clamp_box w h (x1, y1, x2, y2))
           = Inr d"
    by blast
  from conf_score_of_cases [OF cs] make_box_fields(4) [OF mk]
  have "(conf b = None \<and> confidence d = None) \<or>
          (\<exists>v more. conf b = Some (v # more) \<and> confidence d = Some (py_round_nd v 3))"
    by auto
  with a show "\<exists>r rest bs b. results = r # rest \<and> r_boxes r = Some bs \<and> b \<in> set bs \<and>
         ((conf b = None \<and> confidence d = None) \<or>
          (\<exists>v more. conf b = Some (v # more) \<and> confidence d = Some (py_round_nd v 3)))"
    by blast
next
  assume "yolo_box_step allowed nm w h (bx\<lparr>conf := c\<rparr>) = Inr x"
  then show "yolo_box_step allowed nm w h (bx\<lparr>conf := None\<rparr>)
          = Inr (map_option (\<lambda>d. d\<lparr>confidence := None\<rparr>) x)"
    by (rule yolo_box_step_conf_absent)
next
  assume "owl_frame_boxes prompts w' h' res = Inr ds' \<and> d' \<in> set ds'"
  then have "owl_frame_boxes prompts w' h' res = Inr ds'" "d' \<in> set ds'" by simp_all
  from owl_emitted [OF this] obtain x1 y1 x2 y2 score idx lbl where
    t: "([x1, y1, x2, y2], score, idx)
          \<in> set (zip (res_boxes res) (zip (res_scores res) (res_labels res)))" and
    mk: "make_box lbl (Some score) w' h' (clamp_box w' h' (x1, y1, x2, y2)) = Inr d'"
    by blast
  from make_box_fields(4) [OF mk] have "confidence d' = Some (py_round_nd score 3)" by simp
  with t show "\<exists>box score idx.
         (box, score, idx) \<in> set (zip (res_boxes res) (zip (res_scores res) (res_labels res)))
         \<and> confidence d' = Some (py_round_nd score 3)"
    by blast
next
  fix v
  show "\<bar>py_round_nd v 3 - v\<bar> \<le> 1 / 2000"
    using py_round_nd_close [of v 3] by simp
  show "\<exists>k. py_round_nd v 3 = real_of_int k / 1000"
    using py_round_nd_grid [of v 3] by simp
qed


theorem confidence_rounded_or_absent_witness:
  "yolo_frame_boxes ALLOWED_CLASSES 640 480
     [\<lparr>r_names = NamesDict [0 \<mapsto> ''person''],
       r_boxes = Some [\<lparr>xyxy = [[10, 20, 30, 40]], cls = Some [0],
                        conf = Some [91234 / 100000]\<rparr>,
                       \<lparr>xyxy = [[10, 20, 30, 40]], cls = Some [0], conf = None\<rparr>]\<rparr>]
   = Inr [\<lparr>label = ''person'', confidence = Some (912 / 1000),
           bbox_px = [10, 20, 30, 40],
           bbox_pct = [156 / 100, 417 / 100, 469 / 100, 833 / 100]\<rparr>,
          \<lparr>label = ''person'', confidence = None,
           bbox_px = [10, 20, 30, 40],
           bbox_pct = [156 / 100, 417 / 100, 469 / 100, 833 / 100]\<rparr>]
   \<and> owl_frame_boxes [''katana''] 640 480
     \<lparr>res_boxes = [[10, 20, 30, 40]], res_scores = [2567 / 10000], res_labels = [0]\<rparr>
   = Inr [\<lparr>label = ''katana'', confidence = Some (257 / 1000),
           bbox_px = [10, 20, 30, 40],
           bbox_pct = [156 / 100, 417 / 100, 469 / 100, 833 / 100]\<rparr>]
   \<and> yolo_box_step ALLOWED_CLASSES (NamesDict [0 \<mapsto> ''person'']) 640 480
        (\<lparr>xyxy = [[10, 20, 30, 40]], cls = Some [0], conf = None\<rparr>\<lparr>conf := None\<rparr>)
     = Inr (Some \<lparr>label = ''person'', confidence = None,
           bbox_px = [10, 20, 30, 40],
           bbox_pct = [156 / 100, 417 / 100, 469 / 100, 833 / 100]\<rparr>)"
proof -
  let ?A = "\<lparr>label = ''person'', confidence = Some (912 / 1000),
           bbox_px = [10, 20, 30, 40],
           bbox_pct = [156 / 100, 417 / 100, 469 / 100, 833 / 100]\<rparr>"
  let ?N = "\<lparr>label = ''person'', confidence = None,
           bbox_px = [10, 20, 30, 40],
           bbox_pct = [156 / 100, 417 / 100, 469 / 100, 833 / 100]\<rparr>"
  let ?K = "\<lparr>label = ''katana'', confidence = Some (257 / 1000),
           bbox_px = [10, 20, 30, 40],
           bbox_pct = [156 / 100, 417 / 100, 469 / 100, 833 / 100]\<rparr>"
  let ?b = "\<lparr>xyxy = [[10, 20, 30, 40]], cls = Some [0], conf = None\<rparr>"
  let ?nm = "NamesDict [0 \<mapsto> ''person'']"
  let ?R = "[\<lparr>r_names = ?nm,
       r_boxes = Some [\<lparr>xyxy = [[10, 20, 30, 40]], cls = Some [0],
                        conf = Some [91234 / 100000]\<rparr>, ?b]\<rparr>]"
  let ?O = "\<lparr>res_boxes = [[10, 20, 30, 40]], res_scores = [2567 / 10000],
            res_labels = [0]\<rparr>"
  have y: "yolo_frame_boxes ALLOWED_CLASSES 640 480 ?R = Inr [?A, ?N]"
    by (simp add: eval_defs)
  have o: "owl_frame_boxes [''katana''] 640 480 ?O = Inr [?K]"
    by (simp add: eval_defs)
  have s: "yolo_box_step ALLOWED_CLASSES ?nm 640 480 (?b\<lparr>conf := Some [91234 / 100000]\<rparr>)
             = Inr (Some ?A)"
    by (simp add: eval_defs)
  from confidence_rounded_or_absent [where allowed = ALLOWED_CLASSES and w = 640 and h = 480
      and results = ?R and ds = "[?A, ?N]" and d = ?N and nm = ?nm and bx = ?b
      and c = "Some [91234 / 100000]" and x = "Some ?A" and prompts = "[''katana'']"
      and w' = 640 and h' = 480 and res = ?O and ds' = "[?K]" and d' = ?K] s
  have "yolo_box_step ALLOWED_CLASSES ?nm 640 480 (?b\<lparr>conf := None\<rparr>) = Inr (Some ?N)"
    by simp
  with y o show ?thesis by blast
qed

section \<open>Sampled frames\<close>

lemma frames_loop_records:
  "frames_loop boxes_of strd fps idx fs acc = Inr frs \<Longrightarrow>
     frs = acc @
       map (\<lambda>i. \<lparr>time = py_round_nd (of_int i / fps) 3, frame_index = i,
                  boxes = projr (boxes_of (fs ! nat (i - idx)))\<rparr>)
         (filter (\<lambda>i. i mod strd = 0) [idx..idx + int (length fs) - 1])"
proof (induction fs arbitrary: idx acc)
  case Nil
  then show ?case by simp
next
  case (Cons f fs)
  have up: "[idx..idx + int (length (f # fs)) - 1] = idx # [idx + 1..idx + 1 + int (length fs) - 1]"
    by (simp add: upto_rec1)
  have sh: "map (\<lambda>i. \<lparr>time = py_round_nd (of_int i / fps) 3, frame_index = i,
                  boxes = projr (boxes_of ((f # fs) ! nat (i - idx)))\<rparr>)
              (filter (\<lambda>i. i mod strd = 0) [idx + 1..idx + 1 + int (length fs) - 1])
          = map (\<lambda>i. \<lparr>time = py_round_nd (of_int i / fps) 3, frame_index = i,
                  boxes = projr (boxes_of (fs ! nat (i - (idx + 1))))\<rparr>)
              (filter (\<lambda>i. i mod strd = 0) [idx + 1..idx + 1 + int (length fs) - 1])"
  proof (rule map_cong [OF refl])
    fix i assume "i \<in> set (filter (\<lambda>i. i mod strd = 0) [idx + 1..idx + 1 + int (length fs) - 1])"
    then have "idx + 1 \<le> i" by simp
    then have "nat (i - idx) = Suc (nat (i - (idx + 1)))" by simp
    then show "\<lparr>time = py_round_nd (of_int i / fps) 3, frame_index = i,
                  boxes = projr (boxes_of ((f # fs) ! nat (i - idx)))\<rparr>
             = \<lparr>time = py_round_nd (of_int i / fps) 3, frame_index = i,
                  boxes = projr (boxes_of (fs ! nat (i - (idx + 1))))\<rparr>"
      by simp
  qed
  show ?case
  proof (cases "idx mod strd = 0")
    case False
    with Cons.prems have "frames_loop boxes_of strd fps (idx + 1) fs acc = Inr frs" by simp
    from Cons.IH [OF this] False show ?thesis
      unfolding up using sh by simp
  next
    case True
    with Cons.prems obtain bxs where b: "boxes_of f = Inr bxs"
      and rest: "frames_loop boxes_of strd fps (idx + 1) fs
                   (acc @ [\<lparr>time = py_round_nd (of_int idx / fps) 3, frame_index = idx,
                            boxes = bxs\<rparr>]) = Inr frs"
      by (auto split: sum.splits)
    from Cons.IH [OF rest] True b show ?thesis
      unfolding up using sh by simp
  qed
qed

lemma frames_loop_total:
  "(\<And>i. i < length fs \<Longrightarrow> (idx + int i) mod strd = 0 \<Longrightarrow> \<exists>b. boxes_of (fs ! i) = Inr b)
     \<Longrightarrow> \<exists>frs. frames_loop boxes_of strd fps idx fs acc = Inr frs"
proof (induction fs arbitrary: idx acc)
  case Nil
  then show ?case by simp
next
  case (Cons f fs)
  have step: "\<exists>frs. frames_loop boxes_of strd fps (idx + 1) fs acc' = Inr frs" for acc'
  proof (rule Cons.IH)
    fix i assume "i < length fs" "(idx + 1 + int i) mod strd = 0"
    with Cons.prems [of "Suc i"] show "\<exists>b. boxes_of (fs ! i) = Inr b"
      by (simp add: ac_simps)
  qed
  show ?case
  proof (cases "idx mod strd = 0")
    case False
    with step show ?thesis by simp
  next
    case True
    with Cons.prems [of 0] obtain b where "boxes_of f = Inr b" by auto
    with True step show ?thesis by simp
  qed
qed

lemma frames_loop_fails:
  assumes "i < length fs" "(idx + int i) mod strd = 0" "boxes_of (fs ! i) = Inl e"
  shows "\<exists>e'. frames_loop boxes_of strd fps idx fs acc = Inl e'"
  using assms
proof (induction fs arbitrary: idx acc i)
  case Nil
  then show ?case by simp
next
  case (Cons f fs)
  show ?case
  proof (cases i)
    case 0
    with Cons.prems show ?thesis by simp
  next
    case (Suc j)
    with Cons.prems have j: "j < length fs" "(idx + 1 + int j) mod strd = 0"
      "boxes_of (fs ! j) = Inl e"
      by (simp_all add: ac_simps)
    have "\<exists>e'. frames_loop boxes_of strd fps (idx + 1) fs acc' = Inl e'" for acc'
      using Cons.IH [OF j] by blast
    then show ?thesis by (auto split: sum.splits)
  qed
qed

lemmas run_defs = assemble_yolo_def assemble_owl_def yolo_boxes_of_def owl_boxes_of_def
  stride_def video_fps_of_def prompts_or_default_def VIDEO_REL_def

lemma frames_loop_index:
  assumes "frames_loop boxes_of strd fps 0 fs [] = Inr frs"
  shows "map frame_index frs = filter (\<lambda>i. i mod strd = 0) [0..int (length fs) - 1]"
    and "map boxes frs =
           map (\<lambda>i. projr (boxes_of (fs ! nat i)))
             (filter (\<lambda>i. i mod strd = 0) [0..int (length fs) - 1])"
    and "sorted (map frame_index frs)" and "distinct (map frame_index frs)"
proof -
  from frames_loop_records [OF assms]
  have frs: "frs = map (\<lambda>i. \<lparr>time = py_round_nd (of_int i / fps) 3, frame_index = i,
                  boxes = projr (boxes_of (fs ! nat i))\<rparr>)
         (filter (\<lambda>i. i mod strd = 0) [0..int (length fs) - 1])"
    by simp
  show a: "map frame_index frs = filter (\<lambda>i. i mod strd = 0) [0..int (length fs) - 1]"
    by (subst frs) (simp add: comp_def)
  show "map boxes frs =
           map (\<lambda>i. projr (boxes_of (fs ! nat i)))
             (filter (\<lambda>i. i mod strd = 0) [0..int (length fs) - 1])"
    by (subst frs) (simp add: comp_def)
  show "sorted (map frame_index frs)" unfolding a by (simp add: sorted_wrt_filter)
  show "distinct (map frame_index frs)" unfolding a by simp
qed

lemma stride_ge_one: "stride fps s = Inr strd \<Longrightarrow> 1 \<le> strd"
  by (auto simp: stride_def split: if_splits)

lemma assemble_yolo_Inr:
  assumes "assemble_yolo cap predict sample_rate conf_thr imgsz = Inr art"
  shows "\<exists>strd. stride (video_fps_of (prop_fps cap)) sample_rate = Inr strd \<and>
           frames_loop (yolo_boxes_of predict imgsz conf_thr) strd
             (video_fps_of (prop_fps cap)) 0 (cap_frames cap) [] = Inr (frames art)"
  using assms
  by (auto simp: assemble_yolo_def Let_def split: if_splits sum.splits)

lemma assemble_owl_Inr:
  assumes "assemble_owl cap detect sample_rate thr model_id prompts_arg = Inr art"
  shows "\<exists>strd. stride (video_fps_of (prop_fps cap)) sample_rate = Inr strd \<and>
           frames_loop (owl_boxes_of detect (prompts_or_default prompts_arg) thr) strd
             (video_fps_of (prop_fps cap)) 0 (cap_frames cap) [] = Inr (frames art)"
  using assms
  by (auto simp: assemble_owl_def Let_def split: if_splits sum.splits)

text \<open>
  Claim C4. For every finite frame stream on which the run goes through, the
  \<^verbatim>\<open>frame_index\<close> values of the \<^verbatim>\<open>frames\<close> array are exactly the indices \<open>i\<close> of the
  stream, counted from 0, with \<open>i mod stride = 0\<close>, in ascending order and without
  repetition, one record per selected frame, whose \<^verbatim>\<open>boxes\<close> are what the detector and
  the normaliser give on that frame. The selection mentions no detection. A sampled
  frame on which the detector reports nothing yields the empty \<^verbatim>\<open>boxes\<close> list, and a run
  whose capture opened, whose sample rate is not zero and whose frames all normalise
  does go through. Both backends.
\<close>

theorem sampled_frames_exact:
  "(assemble_yolo cap predict sample_rate conf_thr imgsz = Inr art \<longrightarrow>
      (\<exists>strd. stride (video_fps_of (prop_fps cap)) sample_rate = Inr strd \<and> 1 \<le> strd \<and>
         map frame_index (frames art)
           = filter (\<lambda>i. i mod strd = 0) [0..int (length (cap_frames cap)) - 1] \<and>
         sorted (map frame_index (frames art)) \<and> distinct (map frame_index (frames art)) \<and>
         map boxes (frames art)
           = map (\<lambda>i. projr (yolo_boxes_of predict imgsz conf_thr (cap_frames cap ! nat i)))
               (filter (\<lambda>i. i mod strd = 0) [0..int (length (cap_frames cap)) - 1])))
   \<and> (assemble_owl cap detect sample_rate thr model_id prompts_arg = Inr art' \<longrightarrow>
      (\<exists>strd. stride (video_fps_of (prop_fps cap)) sample_rate = Inr strd \<and> 1 \<le> strd \<and>
         map frame_index (frames art')
           = filter (\<lambda>i. i mod strd = 0) [0..int (length (cap_frames cap)) - 1] \<and>
         sorted (map frame_index (frames art')) \<and> distinct (map frame_index (frames art')) \<and>
         map boxes (frames art')
           = map (\<lambda>i. projr (owl_boxes_of detect (prompts_or_default prompts_arg) thr
                                (cap_frames cap ! nat i)))
               (filter (\<lambda>i. i mod strd = 0) [0..int (length (cap_frames cap)) - 1])))
   \<and> (predict fr imgsz conf_thr = Inr [] \<or>
       predict fr imgsz conf_thr = Inr (\<lparr>r_names = nm, r_boxes = None\<rparr> # rest) \<or>
       predict fr imgsz conf_thr = Inr (\<lparr>r_names = nm, r_boxes = Some []\<rparr> # rest)
       \<longrightarrow> yolo_boxes_of predict imgsz conf_thr fr = Inr [])
   \<and> (detect prompts fr thr = Inr \<lparr>res_boxes = [], res_scores = [], res_labels = []\<rparr>
       \<longrightarrow> owl_boxes_of detect prompts thr fr = Inr [])
   \<and> (isOpened cap \<and> sample_rate \<noteq> 0 \<and>
       (\<forall>f \<in> set (cap_frames cap). \<exists>b. yolo_boxes_of predict imgsz conf_thr f = Inr b)
       \<longrightarrow> (\<exists>a. assemble_yolo cap predict sample_rate conf_thr imgsz = Inr a))
   \<and> (isOpened cap \<and> sample_rate \<noteq> 0 \<and>
       (\<forall>f \<in> set (cap_frames cap).
          \<exists>b. owl_boxes_of detect (prompts_or_default prompts_arg) thr f = Inr b)
       \<longrightarrow> (\<exists>a. assemble_owl cap detect sample_rate thr model_id prompts_arg = Inr a))"
proof (intro conjI impI)
  assume "assemble_yolo cap predict sample_rate conf_thr imgsz = Inr art"
  from assemble_yolo_Inr [OF this] obtain strd where
    s: "stride (video_fps_of (prop_fps cap)) sample_rate = Inr strd" and
    l: "frames_loop (yolo_boxes_of predict imgsz conf_thr) strd
             (video_fps_of (prop_fps cap)) 0 (cap_frames cap) [] = Inr (frames art)"
    by blast
  from s stride_ge_one [OF s] frames_loop_index [OF l]
  show "\<exists>strd. stride (video_fps_of (prop_fps cap)) sample_rate = Inr strd \<and> 1 \<le> strd \<and>
         map frame_index (frames art)
           = filter (\<lambda>i. i mod strd = 0) [0..int (length (cap_frames cap)) - 1] \<and>
         sorted (map frame_index (frames art)) \<and> distinct (map frame_index (frames art)) \<and>
         map boxes (frames art)
           = map (\<lambda>i. projr (yolo_boxes_of predict imgsz conf_thr (cap_frames cap ! nat i)))
               (filter (\<lambda>i. i mod strd = 0) [0..int (length (cap_frames cap)) - 1])"
    by blast
next
  assume "assemble_owl cap detect sample_rate thr model_id prompts_arg = Inr art'"
  from assemble_owl_Inr [OF this] obtain strd where
    s: "stride (video_fps_of (prop_fps cap)) sample_rate = Inr strd" and
    l: "frames_loop (owl_boxes_of detect (prompts_or_default prompts_arg) thr) strd
             (video_fps_of (prop_fps cap)) 0 (cap_frames cap) [] = Inr (frames art')"
    by blast
  from s stride_ge_one [OF s] frames_loop_index [OF l]
  show "\<exists>strd. stride (video_fps_of (prop_fps cap)) sample_rate = Inr strd \<and> 1 \<le> strd \<and>
         map frame_index (frames art')
           = filter (\<lambda>i. i mod strd = 0) [0..int (length (cap_frames cap)) - 1] \<and>
         sorted (map frame_index (frames art')) \<and> distinct (map frame_index (frames art')) \<and>
         map boxes (frames art')
           = map (\<lambda>i. projr (owl_boxes_of detect (prompts_or_default prompts_arg) thr
                                (cap_frames cap ! nat i)))
               (filter (\<lambda>i. i mod strd = 0) [0..int (length (cap_frames cap)) - 1])"
    by blast
next
  assume "predict fr imgsz conf_thr = Inr [] \<or>
       predict fr imgsz conf_thr = Inr (\<lparr>r_names = nm, r_boxes = None\<rparr> # rest) \<or>
       predict fr imgsz conf_thr = Inr (\<lparr>r_names = nm, r_boxes = Some []\<rparr> # rest)"
  then show "yolo_boxes_of predict imgsz conf_thr fr = Inr []"
    by (auto simp: yolo_boxes_of_def yolo_frame_boxes_def)
next
  assume "detect prompts fr thr = Inr \<lparr>res_boxes = [], res_scores = [], res_labels = []\<rparr>"
  then show "owl_boxes_of detect prompts thr fr = Inr []"
    by (simp add: owl_boxes_of_def owl_frame_boxes_def)
next
  assume a: "isOpened cap \<and> sample_rate \<noteq> 0 \<and>
       (\<forall>f \<in> set (cap_frames cap). \<exists>b. yolo_boxes_of predict imgsz conf_thr f = Inr b)"
  then obtain strd where s: "stride (video_fps_of (prop_fps cap)) sample_rate = Inr strd"
    by (auto simp: stride_def)
  have "\<exists>frs. frames_loop (yolo_boxes_of predict imgsz conf_thr) strd
          (video_fps_of (prop_fps cap)) 0 (cap_frames cap) [] = Inr frs"
    using a by (intro frames_loop_total) auto
  with a s show "\<exists>a. assemble_yolo cap predict sample_rate conf_thr imgsz = Inr a"
    by (auto simp: assemble_yolo_def Let_def)
next
  assume a: "isOpened cap \<and> sample_rate \<noteq> 0 \<and>
       (\<forall>f \<in> set (cap_frames cap).
          \<exists>b. owl_boxes_of detect (prompts_or_default prompts_arg) thr f = Inr b)"
  then obtain strd where s: "stride (video_fps_of (prop_fps cap)) sample_rate = Inr strd"
    by (auto simp: stride_def)
  have "\<exists>frs. frames_loop (owl_boxes_of detect (prompts_or_default prompts_arg) thr) strd
          (video_fps_of (prop_fps cap)) 0 (cap_frames cap) [] = Inr frs"
    using a by (intro frames_loop_total) auto
  with a s show "\<exists>a. assemble_owl cap detect sample_rate thr model_id prompts_arg = Inr a"
    by (auto simp: assemble_owl_def Let_def)
qed


theorem sampled_frames_exact_witness:
  "assemble_yolo
     \<lparr>isOpened = True, prop_fps = 30,
      cap_frames = [\<lparr>shape_h = 480, shape_w = 640, pixels = 0 :: nat\<rparr>,
                    \<lparr>shape_h = 480, shape_w = 640, pixels = 1\<rparr>,
                    \<lparr>shape_h = 480, shape_w = 640, pixels = 2\<rparr>,
                    \<lparr>shape_h = 480, shape_w = 640, pixels = 3\<rparr>,
                    \<lparr>shape_h = 480, shape_w = 640, pixels = 4\<rparr>,
                    \<lparr>shape_h = 480, shape_w = 640, pixels = 5\<rparr>,
                    \<lparr>shape_h = 480, shape_w = 640, pixels = 6\<rparr>]\<rparr>
     (\<lambda>fr sz c. if pixels fr = 3
        then Inr [\<lparr>r_names = NamesDict [0 \<mapsto> ''person''],
                   r_boxes = Some [\<lparr>xyxy = [[- 5, 2, 650, 400]], cls = Some [0],
                                    conf = None\<rparr>]\<rparr>]
        else Inr [])
     10 (4 / 10) 960
   = Inr \<lparr>source = VIDEO_REL, sample_fps = 10, video_fps = 30, model = ''yolov8n.pt'',
          params = YoloParams (4 / 10) 960,
          frames = [\<lparr>time = 0, frame_index = 0, boxes = []\<rparr>,
                    \<lparr>time = 1 / 10, frame_index = 3,
                     boxes = [\<lparr>label = ''person'', confidence = None,
                               bbox_px = [0, 2, 639, 400],
                               bbox_pct = [0, 42 / 100, 9984 / 100, 8333 / 100]\<rparr>]\<rparr>,
                    \<lparr>time = 2 / 10, frame_index = 6, boxes = []\<rparr>]\<rparr>
   \<and> assemble_owl
     \<lparr>isOpened = True, prop_fps = 0,
      cap_frames = [\<lparr>shape_h = 480, shape_w = 640, pixels = 0 :: nat\<rparr>,
                    \<lparr>shape_h = 480, shape_w = 640, pixels = 1\<rparr>,
                    \<lparr>shape_h = 480, shape_w = 640, pixels = 2\<rparr>,
                    \<lparr>shape_h = 480, shape_w = 640, pixels = 3\<rparr>]\<rparr>
     (\<lambda>ps fr t. Inr \<lparr>res_boxes = [], res_scores = [], res_labels = []\<rparr>)
     10 (2 / 10) ''google/owlvit-base-patch32'' (Some [''katana''])
   = Inr \<lparr>source = VIDEO_REL, sample_fps = 10, video_fps = 30,
          model = ''google/owlvit-base-patch32'',
          params = OwlParams (2 / 10) [''katana''],
          frames = [\<lparr>time = 0, frame_index = 0, boxes = []\<rparr>,
                    \<lparr>time = 1 / 10, frame_index = 3, boxes = []\<rparr>]\<rparr>
   \<and> stride (video_fps_of 30) 10 = Inr 3
   \<and> filter (\<lambda>i. i mod 3 = 0) [0..int 7 - 1] = [0, 3, 6]
   \<and> filter (\<lambda>i. i mod 3 = 0) [0..int 4 - 1] = [0, 3]"
proof -
  let ?ocap = "\<lparr>isOpened = True, prop_fps = 0,
      cap_frames = [\<lparr>shape_h = 480, shape_w = 640, pixels = 0 :: nat\<rparr>,
                    \<lparr>shape_h = 480, shape_w = 640, pixels = 1\<rparr>,
                    \<lparr>shape_h = 480, shape_w = 640, pixels = 2\<rparr>,
                    \<lparr>shape_h = 480, shape_w = 640, pixels = 3\<rparr>]\<rparr>"
  let ?detect = "\<lambda>(ps :: string list) (fr :: nat frame) (t :: real).
      (Inr \<lparr>res_boxes = [], res_scores = [], res_labels = []\<rparr> :: py_error + owl_results)"
  let ?oart = "\<lparr>source = VIDEO_REL, sample_fps = 10, video_fps = 30,
          model = ''google/owlvit-base-patch32'',
          params = OwlParams (2 / 10) [''katana''],
          frames = [\<lparr>time = 0, frame_index = 0, boxes = []\<rparr>,
                    \<lparr>time = 1 / 10, frame_index = 3, boxes = []\<rparr>]\<rparr>"
  have o: "assemble_owl ?ocap ?detect 10 (2 / 10) ''google/owlvit-base-patch32''
             (Some [''katana'']) = Inr ?oart"
    by (simp add: run_defs eval_defs)
  have os: "stride (video_fps_of (prop_fps ?ocap)) 10 = Inr 3"
    by (simp add: run_defs py_round_def)
  from sampled_frames_exact [where cap = ?ocap and detect = ?detect and sample_rate = 10
      and thr = "2 / 10" and model_id = "''google/owlvit-base-patch32''"
      and prompts_arg = "Some [''katana'']" and art' = ?oart] o os
  have of: "filter (\<lambda>i. i mod 3 = 0) [0..int 4 - 1] = [0, 3]"
    by simp
  let ?cap = "\<lparr>isOpened = True, prop_fps = 30,
      cap_frames = [\<lparr>shape_h = 480, shape_w = 640, pixels = 0 :: nat\<rparr>,
                    \<lparr>shape_h = 480, shape_w = 640, pixels = 1\<rparr>,
                    \<lparr>shape_h = 480, shape_w = 640, pixels = 2\<rparr>,
                    \<lparr>shape_h = 480, shape_w = 640, pixels = 3\<rparr>,
                    \<lparr>shape_h = 480, shape_w = 640, pixels = 4\<rparr>,
                    \<lparr>shape_h = 480, shape_w = 640, pixels = 5\<rparr>,
                    \<lparr>shape_h = 480, shape_w = 640, pixels = 6\<rparr>]\<rparr>"
  let ?predict = "\<lambda>(fr :: nat frame) (sz :: int) (c :: real). if pixels fr = 3
        then Inr [\<lparr>r_names = NamesDict [0 \<mapsto> ''person''],
                   r_boxes = Some [\<lparr>xyxy = [[- 5, 2, 650, 400]], cls = Some [0],
                                    conf = None\<rparr>]\<rparr>]
        else (Inr [] :: py_error + yolo_result list)"
  let ?art = "\<lparr>source = VIDEO_REL, sample_fps = 10, video_fps = 30, model = ''yolov8n.pt'',
          params = YoloParams (4 / 10) 960,
          frames = [\<lparr>time = 0, frame_index = 0, boxes = []\<rparr>,
                    \<lparr>time = 1 / 10, frame_index = 3,
                     boxes = [\<lparr>label = ''person'', confidence = None,
                               bbox_px = [0, 2, 639, 400],
                               bbox_pct = [0, 42 / 100, 9984 / 100, 8333 / 100]\<rparr>]\<rparr>,
                    \<lparr>time = 2 / 10, frame_index = 6, boxes = []\<rparr>]\<rparr>"
  have y: "assemble_yolo ?cap ?predict 10 (4 / 10) 960 = Inr ?art"
    by (simp add: run_defs eval_defs)
  have s: "stride (video_fps_of 30) 10 = Inr 3"
    by (simp add: run_defs py_round_def)
  from sampled_frames_exact [where cap = ?cap and predict = ?predict and sample_rate = 10
      and conf_thr = "4 / 10" and imgsz = 960 and art = ?art] y s
  have "filter (\<lambda>i. i mod 3 = 0) [0..int 7 - 1] = [0, 3, 6]"
    by simp
  with y s o of show ?thesis by blast
qed

section \<open>Malformed boxes\<close>

lemma yolo_boxes_loop_malformed:
  assumes "b \<in> set bs" "\<forall>row more. xyxy b = row # more \<longrightarrow> length row \<noteq> 4"
  shows "\<exists>e. yolo_boxes_loop allowed nm w h bs acc = Inl e"
  using assms
proof (induction bs arbitrary: acc)
  case Nil
  then show ?case by simp
next
  case (Cons a bs)
  show ?case
  proof (cases "a = b")
    case True
    with Cons.prems(2) have "\<exists>e. yolo_box_step allowed nm w h a = Inl e"
      by (cases "xyxy b") (auto simp: yolo_box_step_def py_index_def unpack4_def)
    then show ?thesis by auto
  next
    case False
    with Cons.prems have "b \<in> set bs" by simp
    from Cons.IH [OF this Cons.prems(2)]
    have "\<exists>e. yolo_boxes_loop allowed nm w h bs acc' = Inl e" for acc' by blast
    then show ?thesis by (auto split: sum.splits option.splits)
  qed
qed

lemma owl_boxes_loop_malformed:
  assumes "(box, score, idx) \<in> set ts" "length box \<noteq> 4"
  shows "\<exists>e. owl_boxes_loop prompts w h ts acc = Inl e"
  using assms
proof (induction ts arbitrary: acc)
  case Nil
  then show ?case by simp
next
  case (Cons a ts)
  show ?case
  proof (cases "a = (box, score, idx)")
    case True
    with Cons.prems(2) have "\<exists>e. owl_box_step prompts w h a = Inl e"
      by (auto simp: owl_box_step_def unpack4_def split: sum.splits)
    then show ?thesis by auto
  next
    case False
    with Cons.prems have "(box, score, idx) \<in> set ts" by simp
    from Cons.IH [OF this Cons.prems(2)]
    have "\<exists>e. owl_boxes_loop prompts w h ts acc' = Inl e" for acc' by blast
    then show ?thesis by (auto split: sum.splits)
  qed
qed


lemma assemble_yolo_fails:
  assumes "i < length (cap_frames cap)"
    "stride (video_fps_of (prop_fps cap)) sample_rate = Inr strd" "int i mod strd = 0"
    "yolo_boxes_of predict imgsz conf_thr (cap_frames cap ! i) = Inl e"
  shows "\<exists>e'. assemble_yolo cap predict sample_rate conf_thr imgsz = Inl e'"
proof -
  from assms(3) have "(0 + int i) mod strd = 0" by simp
  from frames_loop_fails [where boxes_of = "yolo_boxes_of predict imgsz conf_thr"
      and fs = "cap_frames cap" and i = i and idx = 0 and strd = strd and e = e
      and fps = "video_fps_of (prop_fps cap)" and acc = "[]"] assms(1) this assms(4)
  obtain e' where "frames_loop (yolo_boxes_of predict imgsz conf_thr) strd
      (video_fps_of (prop_fps cap)) 0 (cap_frames cap) [] = Inl e'"
    by blast
  with assms(2) show ?thesis by (simp add: assemble_yolo_def Let_def)
qed

lemma assemble_owl_fails:
  assumes "i < length (cap_frames cap)"
    "stride (video_fps_of (prop_fps cap)) sample_rate = Inr strd" "int i mod strd = 0"
    "owl_boxes_of detect (prompts_or_default prompts_arg) thr (cap_frames cap ! i) = Inl e"
  shows "\<exists>e'. assemble_owl cap detect sample_rate thr model_id prompts_arg = Inl e'"
proof -
  from assms(3) have "(0 + int i) mod strd = 0" by simp
  from frames_loop_fails [where boxes_of = "owl_boxes_of detect (prompts_or_default prompts_arg) thr"
      and fs = "cap_frames cap" and i = i and idx = 0 and strd = strd and e = e
      and fps = "video_fps_of (prop_fps cap)" and acc = "[]"] assms(1) this assms(4)
  obtain e' where "frames_loop (owl_boxes_of detect (prompts_or_default prompts_arg) thr) strd
      (video_fps_of (prop_fps cap)) 0 (cap_frames cap) [] = Inl e'"
    by blast
  with assms(2) show ?thesis by (simp add: assemble_owl_def Let_def)
qed

text \<open>
  Claim C8, as amended. Neither script catches an exception. When a raw detection on a
  sampled frame has a missing or malformed box (no row 0, or a row that does not have
  exactly four coordinates), the unpacking raises: the normalisation of that frame
  fails, the run fails and nothing is written. No detection is skipped because of
  its box. Both backends.
\<close>

theorem malformed_box_aborts_run:
  "(i < length (cap_frames cap) \<and>
    stride (video_fps_of (prop_fps cap)) sample_rate = Inr strd \<and> int i mod strd = 0 \<and>
    predict (cap_frames cap ! i) imgsz conf_thr = Inr (r # rest) \<and> r_boxes r = Some bs \<and>
    b \<in> set bs \<and> (\<forall>row more. xyxy b = row # more \<longrightarrow> length row \<noteq> 4)
    \<longrightarrow> (\<exists>e. yolo_boxes_of predict imgsz conf_thr (cap_frames cap ! i) = Inl e) \<and>
        (\<exists>e. assemble_yolo cap predict sample_rate conf_thr imgsz = Inl e) \<and>
        (\<exists>e. run_detection_yolo root_dir cap predict sample_rate conf_thr imgsz fs
                = (Inl e, [fs])))
   \<and> (i < length (cap_frames cap) \<and>
    stride (video_fps_of (prop_fps cap)) sample_rate = Inr strd \<and> int i mod strd = 0 \<and>
    detect (prompts_or_default prompts_arg) (cap_frames cap ! i) thr = Inr res \<and>
    (box, score, idx) \<in> set (zip (res_boxes res) (zip (res_scores res) (res_labels res))) \<and>
    length box \<noteq> 4
    \<longrightarrow> (\<exists>e. owl_boxes_of detect (prompts_or_default prompts_arg) thr (cap_frames cap ! i)
                = Inl e) \<and>
        (\<exists>e. assemble_owl cap detect sample_rate thr model_id prompts_arg = Inl e) \<and>
        (\<exists>e. run_detection_owl root_dir cap detect sample_rate thr model_id prompts_arg fs
                = (Inl e, [fs])))"
proof (intro conjI impI)
  assume a: "i < length (cap_frames cap) \<and>
    stride (video_fps_of (prop_fps cap)) sample_rate = Inr strd \<and> int i mod strd = 0 \<and>
    predict (cap_frames cap ! i) imgsz conf_thr = Inr (r # rest) \<and> r_boxes r = Some bs \<and>
    b \<in> set bs \<and> (\<forall>row more. xyxy b = row # more \<longrightarrow> length row \<noteq> 4)"
  let ?f = "cap_frames cap ! i"
  from a have "\<exists>e. yolo_boxes_loop ALLOWED_CLASSES (r_names r) (shape_w ?f) (shape_h ?f) bs []
                  = Inl e"
    by (intro yolo_boxes_loop_malformed [of b]) auto
  with a show f: "\<exists>e. yolo_boxes_of predict imgsz conf_thr ?f = Inl e"
    by (auto simp: yolo_boxes_of_def yolo_frame_boxes_def)
  then obtain e where "yolo_boxes_of predict imgsz conf_thr ?f = Inl e" by blast
  moreover from a have "i < length (cap_frames cap)"
    "stride (video_fps_of (prop_fps cap)) sample_rate = Inr strd" "int i mod strd = 0"
    by simp_all
  ultimately show g: "\<exists>e. assemble_yolo cap predict sample_rate conf_thr imgsz = Inl e"
    by (rule assemble_yolo_fails [rotated 3])
  then show "\<exists>e. run_detection_yolo root_dir cap predict sample_rate conf_thr imgsz fs
                = (Inl e, [fs])"
    by (auto simp: run_detection_yolo_def)
next
  assume a: "i < length (cap_frames cap) \<and>
    stride (video_fps_of (prop_fps cap)) sample_rate = Inr strd \<and> int i mod strd = 0 \<and>
    detect (prompts_or_default prompts_arg) (cap_frames cap ! i) thr = Inr res \<and>
    (box, score, idx) \<in> set (zip (res_boxes res) (zip (res_scores res) (res_labels res))) \<and>
    length box \<noteq> 4"
  let ?f = "cap_frames cap ! i"
  let ?p = "prompts_or_default prompts_arg"
  from a have "\<exists>e. owl_boxes_loop ?p (shape_w ?f) (shape_h ?f)
                  (zip (res_boxes res) (zip (res_scores res) (res_labels res))) [] = Inl e"
    by (intro owl_boxes_loop_malformed [of box score idx]) auto
  with a show f: "\<exists>e. owl_boxes_of detect ?p thr ?f = Inl e"
    by (auto simp: owl_boxes_of_def owl_frame_boxes_def)
  then obtain e where "owl_boxes_of detect ?p thr ?f = Inl e" by blast
  moreover from a have "i < length (cap_frames cap)"
    "stride (video_fps_of (prop_fps cap)) sample_rate = Inr strd" "int i mod strd = 0"
    by simp_all
  ultimately show g: "\<exists>e. assemble_owl cap detect sample_rate thr model_id prompts_arg = Inl e"
    by (rule assemble_owl_fails [rotated 3])
  then show "\<exists>e. run_detection_owl root_dir cap detect sample_rate thr model_id prompts_arg fs
                = (Inl e, [fs])"
    by (auto simp: run_detection_owl_def)
qed

text \<open>
  A frame with a three-coordinate box and a well-formed box does not yield the
  well-formed detection alone, as skipping would: it yields \<^verbatim>\<open>ValueError\<close> (and
  \<^verbatim>\<open>IndexError\<close> when row 0 is missing), and the run ends with that error, the file
  system untouched.
\<close>

theorem malformed_box_skipped_counterexample:
  "yolo_frame_boxes ALLOWED_CLASSES 640 480
     [\<lparr>r_names = NamesDict [0 \<mapsto> ''person''],
       r_boxes = Some [\<lparr>xyxy = [[10, 20, 30]], cls = Some [0], conf = None\<rparr>,
                       \<lparr>xyxy = [[- 5, 2, 650, 400]], cls = Some [0], conf = None\<rparr>]\<rparr>]
   = Inl ValueError
   \<and> yolo_frame_boxes ALLOWED_CLASSES 640 480
     [\<lparr>r_names = NamesDict [0 \<mapsto> ''person''],
       r_boxes = Some [\<lparr>xyxy = [], cls = Some [0], conf = None\<rparr>,
                       \<lparr>xyxy = [[- 5, 2, 650, 400]], cls = Some [0], conf = None\<rparr>]\<rparr>]
   = Inl IndexError
   \<and> yolo_frame_boxes ALLOWED_CLASSES 640 480
     [\<lparr>r_names = NamesDict [0 \<mapsto> ''person''],
       r_boxes = Some [\<lparr>xyxy = [[- 5, 2, 650, 400]], cls = Some [0], conf = None\<rparr>]\<rparr>]
   = Inr [\<lparr>label = ''person'', confidence = None,
           bbox_px = [0, 2, 639, 400],
           bbox_pct = [0, 42 / 100, 9984 / 100, 8333 / 100]\<rparr>]
   \<and> owl_frame_boxes [''katana''] 640 480
     \<lparr>res_boxes = [[10, 20, 30], [- 5, 2, 650, 400]], res_scores = [9 / 10, 1 / 2],
      res_labels = [0, 0]\<rparr>
   = Inl ValueError
   \<and> run_detection_yolo [''repo'']
     \<lparr>isOpened = True, prop_fps = 30,
      cap_frames = [\<lparr>shape_h = 480, shape_w = 640, pixels = ()\<rparr>]\<rparr>
     (\<lambda>fr sz c. Inr [\<lparr>r_names = NamesDict [0 \<mapsto> ''person''],
       r_boxes = Some [\<lparr>xyxy = [[10, 20, 30]], cls = Some [0], conf = None\<rparr>,
                       \<lparr>xyxy = [[- 5, 2, 650, 400]], cls = Some [0], conf = None\<rparr>]\<rparr>])
     3 (4 / 10) 960 \<lparr>dirs = {}, files = Map.empty\<rparr>
   = (Inl ValueError, [\<lparr>dirs = {}, files = Map.empty\<rparr>])"
  by (simp add: eval_defs run_defs run_detection_yolo_def)


theorem malformed_box_aborts_run_witness:
  "stride (video_fps_of 30) 3 = Inr 10 \<and> int 0 mod 10 = 0
   \<and> length [10, 20, 30 :: real] \<noteq> 4
   \<and> assemble_yolo
     \<lparr>isOpened = True, prop_fps = 30,
      cap_frames = [\<lparr>shape_h = 480, shape_w = 640, pixels = ()\<rparr>]\<rparr>
     (\<lambda>fr sz c. Inr [\<lparr>r_names = NamesDict [0 \<mapsto> ''person''],
       r_boxes = Some [\<lparr>xyxy = [[- 5, 2, 650, 400]], cls = Some [0], conf = None\<rparr>,
                       \<lparr>xyxy = [[10, 20, 30]], cls = Some [0], conf = None\<rparr>]\<rparr>])
     3 (4 / 10) 960
   = Inl ValueError
   \<and> assemble_owl
     \<lparr>isOpened = True, prop_fps = 30,
      cap_frames = [\<lparr>shape_h = 480, shape_w = 640, pixels = ()\<rparr>]\<rparr>
     (\<lambda>ps fr t. Inr \<lparr>res_boxes = [[- 5, 2, 650, 400], [10, 20, 30]],
                      res_scores = [9 / 10, 1 / 2], res_labels = [0, 0]\<rparr>)
     3 (2 / 10) ''google/owlvit-base-patch32'' None
   = Inl ValueError"
proof -
  let ?cap = "\<lparr>isOpened = True, prop_fps = 30,
      cap_frames = [\<lparr>shape_h = 480, shape_w = 640, pixels = ()\<rparr>]\<rparr>"
  let ?bad = "\<lparr>xyxy = [[10, 20, 30]], cls = Some [0], conf = None\<rparr>"
  let ?bs = "[\<lparr>xyxy = [[- 5, 2, 650, 400]], cls = Some [0], conf = None\<rparr>, ?bad]"
  let ?r = "\<lparr>r_names = NamesDict [0 \<mapsto> ''person''], r_boxes = Some ?bs\<rparr>"
  let ?predict = "\<lambda>(fr :: unit frame) (sz :: int) (c :: real).
      (Inr [?r] :: py_error + yolo_result list)"
  let ?res = "\<lparr>res_boxes = [[- 5, 2, 650, 400], [10, 20, 30]],
                      res_scores = [9 / 10, 1 / 2], res_labels = [0, 0]\<rparr>"
  let ?detect = "\<lambda>(ps :: string list) (fr :: unit frame) (t :: real).
      (Inr ?res :: py_error + owl_results)"
  have s: "stride (video_fps_of 30) 3 = Inr 10 \<and> int 0 mod 10 = 0
           \<and> length [10, 20, 30 :: real] \<noteq> 4"
    by (simp add: run_defs py_round_def)
  have hy: "0 < length (cap_frames ?cap) \<and>
    stride (video_fps_of (prop_fps ?cap)) 3 = Inr 10 \<and> int 0 mod 10 = 0 \<and>
    ?predict (cap_frames ?cap ! 0) 960 (4 / 10) = Inr (?r # []) \<and> r_boxes ?r = Some ?bs \<and>
    ?bad \<in> set ?bs \<and> (\<forall>row more. xyxy ?bad = row # more \<longrightarrow> length row \<noteq> 4)"
    using s by simp
  have ho: "0 < length (cap_frames ?cap) \<and>
    stride (video_fps_of (prop_fps ?cap)) 3 = Inr 10 \<and> int 0 mod 10 = 0 \<and>
    ?detect (prompts_or_default None) (cap_frames ?cap ! 0) (2 / 10) = Inr ?res \<and>
    ([10, 20, 30], 1 / 2, 0)
       \<in> set (zip (res_boxes ?res) (zip (res_scores ?res) (res_labels ?res))) \<and>
    length [10, 20, 30 :: real] \<noteq> 4"
    using s by simp
  note T = malformed_box_aborts_run [where i = 0 and cap = ?cap and sample_rate = 3
      and strd = 10 and predict = ?predict and imgsz = 960 and conf_thr = "4 / 10" and r = ?r
      and rest = "[]" and bs = ?bs and b = ?bad and detect = ?detect and prompts_arg = None
      and thr = "2 / 10" and res = ?res and box = "[10, 20, 30]" and score = "1 / 2"
      and idx = 0 and model_id = "''google/owlvit-base-patch32''"]
  from T [THEN conjunct1, THEN mp, OF hy]
  have "\<exists>e. assemble_yolo ?cap ?predict 3 (4 / 10) 960 = Inl e" by (rule conjunct2 [THEN conjunct1])
  moreover from T [THEN conjunct2, THEN mp, OF ho]
  have "\<exists>e. assemble_owl ?cap ?detect 3 (2 / 10) ''google/owlvit-base-patch32'' None = Inl e"
    by (rule conjunct2 [THEN conjunct1])
  moreover have "assemble_yolo ?cap ?predict 3 (4 / 10) 960 = Inl ValueError
        \<or> (\<forall>e. assemble_yolo ?cap ?predict 3 (4 / 10) 960 \<noteq> Inl e)"
    by (simp add: run_defs eval_defs)
  moreover have "assemble_owl ?cap ?detect 3 (2 / 10) ''google/owlvit-base-patch32'' None
          = Inl ValueError
        \<or> (\<forall>e. assemble_owl ?cap ?detect 3 (2 / 10) ''google/owlvit-base-patch32'' None
               \<noteq> Inl e)"
    by (simp add: run_defs eval_defs)
  ultimately show ?thesis using s by blast
qed

section \<open>Determinism\<close>

lemma frames_loop_cong:
  "map boxes_of1 fs1 = map boxes_of2 fs2 \<Longrightarrow>
     frames_loop boxes_of1 strd fps idx fs1 acc = frames_loop boxes_of2 strd fps idx fs2 acc"
proof (induction fs1 arbitrary: fs2 idx acc)
  case Nil
  then show ?case by simp
next
  case (Cons f fs1)
  then obtain g gs where fs2: "fs2 = g # gs" and hd: "boxes_of1 f = boxes_of2 g"
    and tl: "map boxes_of1 fs1 = map boxes_of2 gs"
    by (cases fs2) auto
  from Cons.IH [OF tl] hd show ?case
    unfolding fs2 by (simp split: sum.splits)
qed

lemma map_eq_nth:
  assumes "map f xs = map g ys" "i < length xs"
  shows "f (xs ! i) = g (ys ! i)"
proof -
  from assms(1) have len: "length xs = length ys" by (metis length_map)
  from assms(1) have "map f xs ! i = map g ys ! i" by simp
  with assms(2) len show ?thesis by simp
qed

lemma yolo_boxes_of_map_cong:
  assumes h: "map shape_h fs1 = map shape_h fs2" and w: "map shape_w fs1 = map shape_w fs2"
    and p: "map (\<lambda>f. predict1 f imgsz c) fs1 = map (\<lambda>f. predict2 f imgsz c) fs2"
  shows "map (yolo_boxes_of predict1 imgsz c) fs1 = map (yolo_boxes_of predict2 imgsz c) fs2"
proof (rule nth_equalityI)
  from h show len: "length (map (yolo_boxes_of predict1 imgsz c) fs1)
                = length (map (yolo_boxes_of predict2 imgsz c) fs2)"
    by (metis length_map)
  fix i assume "i < length (map (yolo_boxes_of predict1 imgsz c) fs1)"
  then have i: "i < length fs1" by simp
  with len have i2: "i < length fs2" by simp
  from map_eq_nth [OF h i] map_eq_nth [OF w i] map_eq_nth [OF p i] i i2
  show "map (yolo_boxes_of predict1 imgsz c) fs1 ! i
          = map (yolo_boxes_of predict2 imgsz c) fs2 ! i"
    by (simp add: yolo_boxes_of_def split: sum.splits)
qed

lemma owl_boxes_of_map_cong:
  assumes h: "map shape_h fs1 = map shape_h fs2" and w: "map shape_w fs1 = map shape_w fs2"
    and p: "map (\<lambda>f. detect1 ps f t) fs1 = map (\<lambda>f. detect2 ps f t) fs2"
  shows "map (owl_boxes_of detect1 ps t) fs1 = map (owl_boxes_of detect2 ps t) fs2"
proof (rule nth_equalityI)
  from h show len: "length (map (owl_boxes_of detect1 ps t) fs1)
                = length (map (owl_boxes_of detect2 ps t) fs2)"
    by (metis length_map)
  fix i assume "i < length (map (owl_boxes_of detect1 ps t) fs1)"
  then have i: "i < length fs1" by simp
  with len have i2: "i < length fs2" by simp
  from map_eq_nth [OF h i] map_eq_nth [OF w i] map_eq_nth [OF p i] i i2
  show "map (owl_boxes_of detect1 ps t) fs1 ! i = map (owl_boxes_of detect2 ps t) fs2 ! i"
    by (simp add: owl_boxes_of_def split: sum.splits)
qed

lemma persist_Inr:
  assumes "persist out art fs = (Inr p, tr)"
  shows "p = out \<and> files (last tr) out = Some (Document art)"
  using assms
  by (auto simp: persist_def json_dump_def split: sum.splits)

text \<open>
  Claim C10. The assembled artifact is a function of the configuration, of the frame
  rate the capture reports, of the dimensions of the frames and of the raw detector
  output on each frame, and of nothing else: two runs that agree on these assemble
  the same artifact (or fail with the same error), whatever the pixel data and whatever
  the detectors are as functions; and two successful runs of the same pipeline from
  different file-system states write the same document to the same path. Both
  backends.
\<close>

theorem pipeline_deterministic:
  "(isOpened cap1 = isOpened cap2 \<and> prop_fps cap1 = prop_fps cap2 \<and>
    map shape_h (cap_frames cap1) = map shape_h (cap_frames cap2) \<and>
    map shape_w (cap_frames cap1) = map shape_w (cap_frames cap2) \<and>
    map (\<lambda>f. predict1 f imgsz conf_thr) (cap_frames cap1)
      = map (\<lambda>f. predict2 f imgsz conf_thr) (cap_frames cap2)
    \<longrightarrow> assemble_yolo cap1 predict1 sample_rate conf_thr imgsz
          = assemble_yolo cap2 predict2 sample_rate conf_thr imgsz)
   \<and> (isOpened cap1 = isOpened cap2 \<and> prop_fps cap1 = prop_fps cap2 \<and>
    map shape_h (cap_frames cap1) = map shape_h (cap_frames cap2) \<and>
    map shape_w (cap_frames cap1) = map shape_w (cap_frames cap2) \<and>
    map (\<lambda>f. detect1 (prompts_or_default prompts_arg) f thr) (cap_frames cap1)
      = map (\<lambda>f. detect2 (prompts_or_default prompts_arg) f thr) (cap_frames cap2)
    \<longrightarrow> assemble_owl cap1 detect1 sample_rate thr model_id prompts_arg
          = assemble_owl cap2 detect2 sample_rate thr model_id prompts_arg)
   \<and> (run_detection_yolo root_dir cap1 predict1 sample_rate conf_thr imgsz fsa = (Inr pa, tra) \<and>
       run_detection_yolo root_dir cap1 predict1 sample_rate conf_thr imgsz fsb = (Inr pb, trb)
    \<longrightarrow> pa = pb \<and> files (last tra) (OUT_PATH root_dir) = files (last trb) (OUT_PATH root_dir))
   \<and> (run_detection_owl root_dir cap1 detect1 sample_rate thr model_id prompts_arg fsa
         = (Inr pa', tra') \<and>
       run_detection_owl root_dir cap1 detect1 sample_rate thr model_id prompts_arg fsb
         = (Inr pb', trb')
    \<longrightarrow> pa' = pb' \<and>
        files (last tra') (OUT_PATH root_dir) = files (last trb') (OUT_PATH root_dir))"
proof (intro conjI impI)
  assume a: "isOpened cap1 = isOpened cap2 \<and> prop_fps cap1 = prop_fps cap2 \<and>
    map shape_h (cap_frames cap1) = map shape_h (cap_frames cap2) \<and>
    map shape_w (cap_frames cap1) = map shape_w (cap_frames cap2) \<and>
    map (\<lambda>f. predict1 f imgsz conf_thr) (cap_frames cap1)
      = map (\<lambda>f. predict2 f imgsz conf_thr) (cap_frames cap2)"
  then have "map (yolo_boxes_of predict1 imgsz conf_thr) (cap_frames cap1)
           = map (yolo_boxes_of predict2 imgsz conf_thr) (cap_frames cap2)"
    by (intro yolo_boxes_of_map_cong) simp_all
  then have "frames_loop (yolo_boxes_of predict1 imgsz conf_thr) strd fps 0 (cap_frames cap1) []
           = frames_loop (yolo_boxes_of predict2 imgsz conf_thr) strd fps 0 (cap_frames cap2) []"
    for strd fps by (rule frames_loop_cong)
  with a show "assemble_yolo cap1 predict1 sample_rate conf_thr imgsz
          = assemble_yolo cap2 predict2 sample_rate conf_thr imgsz"
    by (simp add: assemble_yolo_def Let_def split: sum.splits)
next
  assume a: "isOpened cap1 = isOpened cap2 \<and> prop_fps cap1 = prop_fps cap2 \<and>
    map shape_h (cap_frames cap1) = map shape_h (cap_frames cap2) \<and>
    map shape_w (cap_frames cap1) = map shape_w (cap_frames cap2) \<and>
    map (\<lambda>f. detect1 (prompts_or_default prompts_arg) f thr) (cap_frames cap1)
      = map (\<lambda>f. detect2 (prompts_or_default prompts_arg) f thr) (cap_frames cap2)"
  let ?p = "prompts_or_default prompts_arg"
  from a have "map (owl_boxes_of detect1 ?p thr) (cap_frames cap1)
           = map (owl_boxes_of detect2 ?p thr) (cap_frames cap2)"
    by (intro owl_boxes_of_map_cong) simp_all
  then have "frames_loop (owl_boxes_of detect1 ?p thr) strd fps 0 (cap_frames cap1) []
           = frames_loop (owl_boxes_of detect2 ?p thr) strd fps 0 (cap_frames cap2) []"
    for strd fps by (rule frames_loop_cong)
  with a show "assemble_owl cap1 detect1 sample_rate thr model_id prompts_arg
          = assemble_owl cap2 detect2 sample_rate thr model_id prompts_arg"
    by (simp add: assemble_owl_def Let_def split: sum.splits)
next
  assume a: "run_detection_yolo root_dir cap1 predict1 sample_rate conf_thr imgsz fsa
               = (Inr pa, tra) \<and>
       run_detection_yolo root_dir cap1 predict1 sample_rate conf_thr imgsz fsb = (Inr pb, trb)"
  then obtain art where "persist (OUT_PATH root_dir) art fsa = (Inr pa, tra)"
    "persist (OUT_PATH root_dir) art fsb = (Inr pb, trb)"
    by (auto simp: run_detection_yolo_def split: sum.splits)
  from persist_Inr [OF this(1)] persist_Inr [OF this(2)]
  show "pa = pb" "files (last tra) (OUT_PATH root_dir) = files (last trb) (OUT_PATH root_dir)"
    by simp_all
next
  assume a: "run_detection_owl root_dir cap1 detect1 sample_rate thr model_id prompts_arg fsa
         = (Inr pa', tra') \<and>
       run_detection_owl root_dir cap1 detect1 sample_rate thr model_id prompts_arg fsb
         = (Inr pb', trb')"
  then obtain art where "persist (OUT_PATH root_dir) art fsa = (Inr pa', tra')"
    "persist (OUT_PATH root_dir) art fsb = (Inr pb', trb')"
    by (auto simp: run_detection_owl_def split: sum.splits)
  from persist_Inr [OF this(1)] persist_Inr [OF this(2)]
  show "pa' = pb'"
    "files (last tra') (OUT_PATH root_dir) = files (last trb') (OUT_PATH root_dir)"
    by simp_all
qed

theorem pipeline_deterministic_witness:
  "map (\<lambda>f. (\<lambda>(fr :: nat frame) (sz :: int) (c :: real).
               (Inr [] :: py_error + yolo_result list)) f 960 (4 / 10))
     [\<lparr>shape_h = 480, shape_w = 640, pixels = 7 :: nat\<rparr>]
   = map (\<lambda>f. (\<lambda>(fr :: nat frame) (sz :: int) (c :: real).
               if pixels fr = 7 then Inr [\<lparr>r_names = NamesOther, r_boxes = None\<rparr>]
               else (Inr [] :: py_error + yolo_result list)) f 960 (4 / 10))
     [\<lparr>shape_h = 480, shape_w = 640, pixels = 8 :: nat\<rparr>]
   \<and> assemble_yolo
       \<lparr>isOpened = True, prop_fps = 30,
        cap_frames = [\<lparr>shape_h = 480, shape_w = 640, pixels = 7 :: nat\<rparr>]\<rparr>
       (\<lambda>fr sz c. Inr []) 3 (4 / 10) 960
     = assemble_yolo
       \<lparr>isOpened = True, prop_fps = 30,
        cap_frames = [\<lparr>shape_h = 480, shape_w = 640, pixels = 8 :: nat\<rparr>]\<rparr>
       (\<lambda>fr sz c. if pixels fr = 7 then Inr [\<lparr>r_names = NamesOther, r_boxes = None\<rparr>]
                   else Inr [])
       3 (4 / 10) 960"
proof -
  let ?c1 = "\<lparr>isOpened = True, prop_fps = 30,
        cap_frames = [\<lparr>shape_h = 480, shape_w = 640, pixels = 7 :: nat\<rparr>]\<rparr>"
  let ?c2 = "\<lparr>isOpened = True, prop_fps = 30,
        cap_frames = [\<lparr>shape_h = 480, shape_w = 640, pixels = 8 :: nat\<rparr>]\<rparr>"
  let ?p1 = "\<lambda>(fr :: nat frame) (sz :: int) (c :: real).
               (Inr [] :: py_error + yolo_result list)"
  let ?p2 = "\<lambda>(fr :: nat frame) (sz :: int) (c :: real).
               if pixels fr = 7 then Inr [\<lparr>r_names = NamesOther, r_boxes = None\<rparr>]
               else (Inr [] :: py_error + yolo_result list)"
  have h: "isOpened ?c1 = isOpened ?c2 \<and> prop_fps ?c1 = prop_fps ?c2 \<and>
    map shape_h (cap_frames ?c1) = map shape_h (cap_frames ?c2) \<and>
    map shape_w (cap_frames ?c1) = map shape_w (cap_frames ?c2) \<and>
    map (\<lambda>f. ?p1 f 960 (4 / 10)) (cap_frames ?c1)
      = map (\<lambda>f. ?p2 f 960 (4 / 10)) (cap_frames ?c2)"
    by simp
  note T = pipeline_deterministic [where ?cap1.0 = ?c1 and ?cap2.0 = ?c2
      and ?predict1.0 = ?p1 and ?predict2.0 = ?p2 and imgsz = 960 and conf_thr = "4 / 10"
      and sample_rate = 3]
  from T [THEN conjunct1, THEN mp, OF h]
  have "assemble_yolo ?c1 ?p1 3 (4 / 10) 960 = assemble_yolo ?c2 ?p2 3 (4 / 10) 960" .
  moreover have "map (\<lambda>f. ?p1 f 960 (4 / 10)) (cap_frames ?c1)
      = map (\<lambda>f. ?p2 f 960 (4 / 10)) (cap_frames ?c2)"
    by simp
  ultimately show ?thesis by simp
qed


section \<open>Persistence\<close>

lemmas fs_defs = run_detection_yolo_def run_detection_owl_def persist_def mkdir_parents_def
  open_w_def json_dump_def OUT_PATH_def ancestors_or_self_def

lemma ancestors_or_self_iff:
  "q \<in> set (ancestors_or_self p) \<longleftrightarrow> (\<exists>n. 1 \<le> n \<and> n \<le> length p \<and> q = take n p)"
  by (auto simp: ancestors_or_self_def)

lemma self_in_ancestors: "p \<noteq> [] \<Longrightarrow> p \<in> set (ancestors_or_self p)"
  unfolding ancestors_or_self_iff
  by (rule exI [of _ "length p"]) (cases p; simp)

lemma ancestors_butlast: "set (ancestors_or_self (butlast p)) \<subseteq> set (ancestors_or_self p)"
proof
  fix q assume "q \<in> set (ancestors_or_self (butlast p))"
  then obtain n where n: "1 \<le> n" "n \<le> length (butlast p)" "q = take n (butlast p)"
    unfolding ancestors_or_self_iff by blast
  then have "q = take n p" by (simp add: take_butlast)
  with n show "q \<in> set (ancestors_or_self p)"
    unfolding ancestors_or_self_iff by auto
qed

lemma not_in_ancestors_butlast: "p \<noteq> [] \<Longrightarrow> p \<notin> set (ancestors_or_self (butlast p))"
proof
  assume "p \<noteq> []" "p \<in> set (ancestors_or_self (butlast p))"
  then obtain n where "n \<le> length (butlast p)" "p = take n (butlast p)"
    unfolding ancestors_or_self_iff by blast
  then have "length p \<le> length (butlast p)" by (metis length_take min.cobounded1)
  with \<open>p \<noteq> []\<close> show False by (cases p rule: rev_cases) simp_all
qed

lemma mkdir_parents_free:
  assumes "\<forall>q \<in> set (ancestors_or_self p). files fs q = None" "p \<noteq> []"
  shows "mkdir_parents p fs = Inr (fs\<lparr>dirs := dirs fs \<union> set (ancestors_or_self p)\<rparr>)"
proof -
  from assms(1) ancestors_butlast [of p]
  have "\<not> list_ex (\<lambda>q. files fs q \<noteq> None) (ancestors_or_self (butlast p))"
    by (auto simp: list_ex_iff)
  moreover from assms self_in_ancestors [of p] have "files fs p = None" by blast
  ultimately show ?thesis by (simp add: mkdir_parents_def)
qed

lemma persist_free:
  assumes "\<forall>q \<in> set (ancestors_or_self (butlast out)). files fs q = None"
    "butlast out \<noteq> []" "out \<notin> dirs fs"
  shows "persist out art fs =
           (Inr out,
            [fs,
             fs\<lparr>dirs := dirs fs \<union> set (ancestors_or_self (butlast out))\<rparr>,
             fs\<lparr>dirs := dirs fs \<union> set (ancestors_or_self (butlast out)),
                files := (files fs)(out \<mapsto> Incomplete)\<rparr>,
             fs\<lparr>dirs := dirs fs \<union> set (ancestors_or_self (butlast out)),
                files := (files fs)(out \<mapsto> Document art)\<rparr>])"
proof -
  from assms(2) have "out \<noteq> []" by auto
  then have "out \<notin> set (ancestors_or_self (butlast out))" by (rule not_in_ancestors_butlast)
  with assms(3) mkdir_parents_free [OF assms(1,2)] show ?thesis
    by (simp add: persist_def open_w_def json_dump_def)
qed

lemma butlast_OUT_PATH: "butlast (OUT_PATH root_dir) = root_dir @ [''data'', ''cv'']"
  by (simp add: OUT_PATH_def butlast_append)

text \<open>
  Claim C9, as amended. A run that fails before the end of the frame loop leaves the
  file system as it was. A run that gets there writes the artifact once: it creates
  the missing directories above the destination, opens the destination for writing,
  which creates or truncates it, and then writes the whole document; whatever was at the
  destination before is overwritten in place. The write is not atomic: between the
  opening and the end of the write a reader finds the destination without a complete
  document. (Stated for a destination that no regular file above it and no directory
  at it blocks.) Both backends.
\<close>

theorem persist_after_successful_run:
  "(assemble_yolo cap predict sample_rate conf_thr imgsz = Inl e \<longrightarrow>
      run_detection_yolo root_dir cap predict sample_rate conf_thr imgsz fs = (Inl e, [fs]))
   \<and> (assemble_owl cap detect sample_rate thr model_id prompts_arg = Inl e' \<longrightarrow>
      run_detection_owl root_dir cap detect sample_rate thr model_id prompts_arg fs
        = (Inl e', [fs]))
   \<and> ((assemble_yolo cap predict sample_rate conf_thr imgsz = Inr art \<and>
          run = run_detection_yolo root_dir cap predict sample_rate conf_thr imgsz fs
        \<or> assemble_owl cap detect sample_rate thr model_id prompts_arg = Inr art \<and>
          run = run_detection_owl root_dir cap detect sample_rate thr model_id prompts_arg fs)
       \<and> (\<forall>q \<in> set (ancestors_or_self (root_dir @ [''data'', ''cv''])). files fs q = None)
       \<and> OUT_PATH root_dir \<notin> dirs fs
      \<longrightarrow> run =
           (Inr (OUT_PATH root_dir),
            [fs,
             fs\<lparr>dirs := dirs fs \<union> set (ancestors_or_self (root_dir @ [''data'', ''cv'']))\<rparr>,
             fs\<lparr>dirs := dirs fs \<union> set (ancestors_or_self (root_dir @ [''data'', ''cv''])),
                files := (files fs)(OUT_PATH root_dir \<mapsto> Incomplete)\<rparr>,
             fs\<lparr>dirs := dirs fs \<union> set (ancestors_or_self (root_dir @ [''data'', ''cv''])),
                files := (files fs)(OUT_PATH root_dir \<mapsto> Document art)\<rparr>]))"
proof (intro conjI impI)
  assume "assemble_yolo cap predict sample_rate conf_thr imgsz = Inl e"
  then show "run_detection_yolo root_dir cap predict sample_rate conf_thr imgsz fs
               = (Inl e, [fs])"
    by (simp add: run_detection_yolo_def)
next
  assume "assemble_owl cap detect sample_rate thr model_id prompts_arg = Inl e'"
  then show "run_detection_owl root_dir cap detect sample_rate thr model_id prompts_arg fs
               = (Inl e', [fs])"
    by (simp add: run_detection_owl_def)
next
  assume a: "(assemble_yolo cap predict sample_rate conf_thr imgsz = Inr art \<and>
          run = run_detection_yolo root_dir cap predict sample_rate conf_thr imgsz fs
        \<or> assemble_owl cap detect sample_rate thr model_id prompts_arg = Inr art \<and>
          run = run_detection_owl root_dir cap detect sample_rate thr model_id prompts_arg fs)
       \<and> (\<forall>q \<in> set (ancestors_or_self (root_dir @ [''data'', ''cv''])). files fs q = None)
       \<and> OUT_PATH root_dir \<notin> dirs fs"
  then have run: "run = persist (OUT_PATH root_dir) art fs"
    by (auto simp: run_detection_yolo_def run_detection_owl_def)
  have b: "butlast (OUT_PATH root_dir) \<noteq> []" by (simp add: butlast_OUT_PATH)
  from a have c: "\<forall>q \<in> set (ancestors_or_self (butlast (OUT_PATH root_dir))). files fs q = None"
    by (simp add: butlast_OUT_PATH)
  from a have d: "OUT_PATH root_dir \<notin> dirs fs" by simp
  from persist_free [OF c b d, of art] run
  show "run =
           (Inr (OUT_PATH root_dir),
            [fs,
             fs\<lparr>dirs := dirs fs \<union> set (ancestors_or_self (root_dir @ [''data'', ''cv'']))\<rparr>,
             fs\<lparr>dirs := dirs fs \<union> set (ancestors_or_self (root_dir @ [''data'', ''cv''])),
                files := (files fs)(OUT_PATH root_dir \<mapsto> Incomplete)\<rparr>,
             fs\<lparr>dirs := dirs fs \<union> set (ancestors_or_self (root_dir @ [''data'', ''cv''])),
                files := (files fs)(OUT_PATH root_dir \<mapsto> Document art)\<rparr>])"
    by (simp add: butlast_OUT_PATH)
qed

text \<open>
  On a rerun over an earlier artifact the destination passes through a state in which
  it holds neither the earlier document nor the new one.
\<close>

theorem persist_not_atomic_counterexample:
  "fst (run_detection_yolo [''repo'']
          \<lparr>isOpened = True, prop_fps = 30, cap_frames = ([] :: unit frame list)\<rparr>
          (\<lambda>fr sz c. Inr []) 3 (4 / 10) 960
          \<lparr>dirs = {[''repo''], [''repo'', ''data''], [''repo'', ''data'', ''cv'']},
           files = [OUT_PATH [''repo''] \<mapsto>
                      Document \<lparr>source = VIDEO_REL, sample_fps = 2, video_fps = 30,
                                model = ''yolov8n.pt'', params = YoloParams (4 / 10) 960,
                                frames = []\<rparr>]\<rparr>)
     = Inr (OUT_PATH [''repo''])
   \<and> files (snd (run_detection_yolo [''repo'']
          \<lparr>isOpened = True, prop_fps = 30, cap_frames = ([] :: unit frame list)\<rparr>
          (\<lambda>fr sz c. Inr []) 3 (4 / 10) 960
          \<lparr>dirs = {[''repo''], [''repo'', ''data''], [''repo'', ''data'', ''cv'']},
           files = [OUT_PATH [''repo''] \<mapsto>
                      Document \<lparr>source = VIDEO_REL, sample_fps = 2, video_fps = 30,
                                model = ''yolov8n.pt'', params = YoloParams (4 / 10) 960,
                                frames = []\<rparr>]\<rparr>) ! 2) (OUT_PATH [''repo''])
     = Some Incomplete
   \<and> files (snd (run_detection_yolo [''repo'']
          \<lparr>isOpened = True, prop_fps = 30, cap_frames = ([] :: unit frame list)\<rparr>
          (\<lambda>fr sz c. Inr []) 3 (4 / 10) 960
          \<lparr>dirs = {[''repo''], [''repo'', ''data''], [''repo'', ''data'', ''cv'']},
           files = [OUT_PATH [''repo''] \<mapsto>
                      Document \<lparr>source = VIDEO_REL, sample_fps = 2, video_fps = 30,
                                model = ''yolov8n.pt'', params = YoloParams (4 / 10) 960,
                                frames = []\<rparr>]\<rparr>) ! 3) (OUT_PATH [''repo''])
     = Some (Document \<lparr>source = VIDEO_REL, sample_fps = 3, video_fps = 30,
                       model = ''yolov8n.pt'', params = YoloParams (4 / 10) 960,
                       frames = []\<rparr>)"
  by (simp add: fs_defs run_defs py_round_def)


theorem persist_after_successful_run_witness:
  "assemble_yolo \<lparr>isOpened = True, prop_fps = 30, cap_frames = ([] :: unit frame list)\<rparr>
     (\<lambda>fr sz c. Inr []) 3 (4 / 10) 960
   = Inr \<lparr>source = VIDEO_REL, sample_fps = 3, video_fps = 30, model = ''yolov8n.pt'',
          params = YoloParams (4 / 10) 960, frames = []\<rparr>
   \<and> OUT_PATH [''repo''] \<notin> dirs \<lparr>dirs = {[''repo'']}, files = Map.empty\<rparr>
   \<and> run_detection_yolo [''repo'']
        \<lparr>isOpened = True, prop_fps = 30, cap_frames = ([] :: unit frame list)\<rparr>
        (\<lambda>fr sz c. Inr []) 3 (4 / 10) 960 \<lparr>dirs = {[''repo'']}, files = Map.empty\<rparr>
     = (Inr (OUT_PATH [''repo'']),
        [\<lparr>dirs = {[''repo'']}, files = Map.empty\<rparr>,
         \<lparr>dirs = {[''repo'']}, files = Map.empty\<rparr>
           \<lparr>dirs := {[''repo'']} \<union> set (ancestors_or_self ([''repo''] @ [''data'', ''cv'']))\<rparr>,
         \<lparr>dirs = {[''repo'']}, files = Map.empty\<rparr>
           \<lparr>dirs := {[''repo'']} \<union> set (ancestors_or_self ([''repo''] @ [''data'', ''cv''])),
            files := [OUT_PATH [''repo''] \<mapsto> Incomplete]\<rparr>,
         \<lparr>dirs = {[''repo'']}, files = Map.empty\<rparr>
           \<lparr>dirs := {[''repo'']} \<union> set (ancestors_or_self ([''repo''] @ [''data'', ''cv''])),
            files := [OUT_PATH [''repo''] \<mapsto>
               Document \<lparr>source = VIDEO_REL, sample_fps = 3, video_fps = 30,
                         model = ''yolov8n.pt'', params = YoloParams (4 / 10) 960,
                         frames = []\<rparr>]\<rparr>])
   \<and> run_detection_yolo [''repo'']
        \<lparr>isOpened = False, prop_fps = 0, cap_frames = ([] :: unit frame list)\<rparr>
        (\<lambda>fr sz c. Inr []) 3 (4 / 10) 960 \<lparr>dirs = {[''repo'']}, files = Map.empty\<rparr>
     = (Inl RuntimeError, [\<lparr>dirs = {[''repo'']}, files = Map.empty\<rparr>])"
proof -
  let ?cap = "\<lparr>isOpened = True, prop_fps = 30, cap_frames = ([] :: unit frame list)\<rparr>"
  let ?ncap = "\<lparr>isOpened = False, prop_fps = 0, cap_frames = ([] :: unit frame list)\<rparr>"
  let ?p = "\<lambda>(fr :: unit frame) (sz :: int) (c :: real).
              (Inr [] :: py_error + yolo_result list)"
  let ?art = "\<lparr>source = VIDEO_REL, sample_fps = 3, video_fps = 30, model = ''yolov8n.pt'',
          params = YoloParams (4 / 10) 960, frames = []\<rparr>"
  let ?fs = "\<lparr>dirs = {[''repo'']}, files = Map.empty\<rparr>"
  let ?det = "\<lambda>(ps :: string list) (fr :: unit frame) (t :: real).
              (Inl DetectorError :: py_error + owl_results)"
  let ?run = "run_detection_yolo [''repo''] ?cap ?p 3 (4 / 10) 960 ?fs"
  have a: "assemble_yolo ?cap ?p 3 (4 / 10) 960 = Inr ?art"
    by (simp add: run_defs py_round_def)
  have n: "assemble_yolo ?ncap ?p 3 (4 / 10) 960 = Inl RuntimeError"
    by (simp add: run_defs)
  have d: "OUT_PATH [''repo''] \<notin> dirs ?fs"
    by (simp add: OUT_PATH_def)
  have h: "(assemble_yolo ?cap ?p 3 (4 / 10) 960 = Inr ?art \<and> ?run = ?run
        \<or> assemble_owl ?cap ?det 3 0 [] None = Inr ?art \<and>
          ?run = run_detection_owl [''repo''] ?cap ?det 3 0 [] None ?fs)
       \<and> (\<forall>q \<in> set (ancestors_or_self ([''repo''] @ [''data'', ''cv''])). files ?fs q = None)
       \<and> OUT_PATH [''repo''] \<notin> dirs ?fs"
    using a d by simp
  note T = persist_after_successful_run [where cap = ?cap and predict = ?p and sample_rate = 3
      and conf_thr = "4 / 10" and imgsz = 960 and art = ?art and root_dir = "[''repo'']"
      and fs = ?fs and run = ?run and detect = ?det and thr = 0 and model_id = "[]"
      and prompts_arg = None]
  note U = persist_after_successful_run [where cap = ?ncap and predict = ?p
      and sample_rate = 3 and conf_thr = "4 / 10" and imgsz = 960 and e = RuntimeError
      and root_dir = "[''repo'']" and fs = ?fs]
  from T [THEN conjunct2, THEN conjunct2, THEN mp, OF h]
       U [THEN conjunct1, THEN mp, OF n] a d
  show ?thesis by simp
qed

end
